theory Spec2Isabelle
  imports Main "HOL-Library.Sublist"
begin

section \<open>Python strings\<close>

text \<open>
  A Python \<open>str\<close> is modelled by the bytes of its UTF-8 encoding (the script reads and
  writes every file with \<open>encoding='utf-8'\<close>).  All delimiters the script looks for are
  ASCII characters, and an ASCII byte never occurs inside the encoding of another code
  point, so searching, replacing and matching bytewise agrees with Python.  The one
  place where non-ASCII code points matter is the regular expression class \<open>\s\<close>, which
  is modelled on the encodings of the Unicode whitespace code points below.
\<close>

text \<open>
  \<open>s.replace(old, new)\<close>: all non-overlapping occurrences of \<open>old\<close>, found in one pass from
  the left.  With an empty \<open>old\<close> Python inserts \<open>new\<close> before every character and at the end.
\<close>

function py_replace :: "string \<Rightarrow> string \<Rightarrow> string \<Rightarrow> string" where
  "py_replace old new [] = (if old = [] then new else [])"
| "py_replace old new (c # cs) =
     (if old = [] then new @ c # py_replace old new cs
      else if prefix old (c # cs) then new @ py_replace old new (drop (length old) (c # cs))
      else c # py_replace old new cs)"
  by pat_completeness auto
termination
  by (relation "measure (\<lambda>(old, new, s). length s)") auto

text \<open>\<open>s.strip(x)\<close> for a single character \<open>x\<close>: every leading and trailing \<open>x\<close> is removed.\<close>

definition strip_chars :: "char \<Rightarrow> string \<Rightarrow> string" where
  "strip_chars x s = rev (dropWhile (\<lambda>c. c = x) (rev (dropWhile (\<lambda>c. c = x) s)))"

text \<open>\<open>s.startswith((p1, p2, ...))\<close>.\<close>

definition startswith :: "string list \<Rightarrow> string \<Rightarrow> bool" where
  "startswith ps s = list_ex (\<lambda>p. prefix p s) ps"

text \<open>
  The code points for which \<open>str.isspace\<close> holds, which are also the ones the class \<open>\s\<close>
  of \<open>re\<close> matches in a \<open>str\<close> pattern, each as its UTF-8 encoding:
  U+0009..U+000D, U+001C..U+001F, U+0020, U+0085, U+00A0, U+1680, U+2000..U+200A,
  U+2028, U+2029, U+202F, U+205F, U+3000.
\<close>

definition py_whitespace :: "string list" where
  "py_whitespace =
     [[CHR 0x09], [CHR 0x0A], [CHR 0x0B], [CHR 0x0C], [CHR 0x0D],
      [CHR 0x1C], [CHR 0x1D], [CHR 0x1E], [CHR 0x1F], [CHR 0x20],
      [CHR 0xC2, CHR 0x85], [CHR 0xC2, CHR 0xA0], [CHR 0xE1, CHR 0x9A, CHR 0x80],
      [CHR 0xE2, CHR 0x80, CHR 0x80], [CHR 0xE2, CHR 0x80, CHR 0x81],
      [CHR 0xE2, CHR 0x80, CHR 0x82], [CHR 0xE2, CHR 0x80, CHR 0x83],
      [CHR 0xE2, CHR 0x80, CHR 0x84], [CHR 0xE2, CHR 0x80, CHR 0x85],
      [CHR 0xE2, CHR 0x80, CHR 0x86], [CHR 0xE2, CHR 0x80, CHR 0x87],
      [CHR 0xE2, CHR 0x80, CHR 0x88], [CHR 0xE2, CHR 0x80, CHR 0x89],
      [CHR 0xE2, CHR 0x80, CHR 0x8A], [CHR 0xE2, CHR 0x80, CHR 0xA8],
      [CHR 0xE2, CHR 0x80, CHR 0xA9], [CHR 0xE2, CHR 0x80, CHR 0xAF],
      [CHR 0xE2, CHR 0x81, CHR 0x9F], [CHR 0xE3, CHR 0x80, CHR 0x80]]"

text \<open>One whitespace code point at the start of \<open>s\<close>: what follows it, if there is one.\<close>

definition skip_space :: "string \<Rightarrow> string option" where
  "skip_space s =
     (case find (\<lambda>t. prefix t s) py_whitespace of
        None \<Rightarrow> None
      | Some t \<Rightarrow> Some (drop (length t) s))"

text \<open>One whitespace code point at the end of \<open>s\<close>: what precedes it, if there is one.\<close>

definition skip_space_end :: "string \<Rightarrow> string option" where
  "skip_space_end s =
     (case find (\<lambda>t. suffix t s) py_whitespace of
        None \<Rightarrow> None
      | Some t \<Rightarrow> Some (take (length s - length t) s))"

section \<open>Path Normalizer and Link Rewriter\<close>

text \<open>\<open>re.sub(r'^[./]+', '', s)\<close>: the pattern is anchored, so only a leading run is removed.\<close>

definition sub_leading_dots_slashes :: "string \<Rightarrow> string" where
  "sub_leading_dots_slashes s = dropWhile (\<lambda>c. c = CHR ''.'' \<or> c = CHR ''/'') s"

text \<open>
  The page name \<open>replace_link\<close> computes from a link target (lines 90 to 96 of
  \<open>sync-to-wiki.py\<close>), in the order of the source: remove \<open>.md\<close>, turn \<open>/\<close> and \<open>_\<close> into
  \<open>-\<close>, remove leading dots and slashes, strip dashes, remove \<open>-index\<close>.
\<close>

definition wiki_page :: "string \<Rightarrow> string" where
  "wiki_page link_path =
     py_replace ''-index'' ''''
       (strip_chars CHR ''-''
         (sub_leading_dots_slashes
           (py_replace ''_'' ''-'' (py_replace ''/'' ''-'' (py_replace ''.md'' '''' link_path)))))"

text \<open>
  The pattern \<open>\[([^\]]+)\]\(([^)]+)\)\<close> tried at the start of \<open>s\<close>.  Each group is a
  negated class followed by the one character the class excludes, so the greedy run up
  to the first such character is the only candidate: backtracking to a shorter run leaves
  a character of the class where the delimiter is required.  The result is the label, the
  target and the text after the match.
\<close>

definition match_link :: "string \<Rightarrow> (string \<times> string \<times> string) option" where
  "match_link s =
     (case s of
        c # s1 \<Rightarrow>
          if c = CHR ''['' \<and> takeWhile (\<lambda>x. x \<noteq> CHR '']'') s1 \<noteq> [] then
            (case dropWhile (\<lambda>x. x \<noteq> CHR '']'') s1 of
               _ # b # s3 \<Rightarrow>
                 if b = CHR ''('' \<and> takeWhile (\<lambda>x. x \<noteq> CHR '')'') s3 \<noteq> [] then
                   (case dropWhile (\<lambda>x. x \<noteq> CHR '')'') s3 of
                      _ # rest \<Rightarrow>
                        Some (takeWhile (\<lambda>x. x \<noteq> CHR '']'') s1,
                              takeWhile (\<lambda>x. x \<noteq> CHR '')'') s3, rest)
                    | [] \<Rightarrow> None)
                 else None
             | _ \<Rightarrow> None)
          else None
      | [] \<Rightarrow> None)"

text \<open>
  What \<open>re.sub\<close> sees of a text: the characters outside every match, and the matches,
  found from the left and not overlapping.  A match carries what \<open>replace_link\<close> reads of
  it: whether the character before it in the text is \<open>!\<close>, its label and its target.
\<close>

datatype piece = Other char | Link bool string string

text \<open>The text of a piece, \<open>match.group(0)\<close> for a match.\<close>

fun group0 :: "piece \<Rightarrow> string" where
  "group0 (Other c) = [c]"
| "group0 (Link bang link_text link_path) = ''['' @ link_text @ '']('' @ link_path @ '')''"

text \<open>
  The scan of \<open>re.sub\<close>; \<open>prev\<close> is the character of the text before the position of the
  scan (none at the start).  A match ends with its closing parenthesis.
\<close>

function finditer_links :: "char option \<Rightarrow> string \<Rightarrow> piece list" where
  "finditer_links prev [] = []"
| "finditer_links prev (c # cs) =
     (case match_link (c # cs) of
        None \<Rightarrow> Other c # finditer_links (Some c) cs
      | Some (link_text, link_path, rest) \<Rightarrow>
          Link (prev = Some CHR ''!'') link_text link_path # finditer_links (Some CHR '')'') rest)"
  by pat_completeness auto
termination
proof (relation "measure (\<lambda>(prev, s). length s)")
  show "wf (measure (\<lambda>(prev, s). length s))"
    by simp
next
  fix prev :: "char option" and c :: char and cs :: string
  show "((Some c, cs), (prev, c # cs)) \<in> measure (\<lambda>(prev, s). length s)"
    by simp
next
  fix prev :: "char option" and c :: char and cs x2 link_text y link_path rest
  assume m: "match_link (c # cs) = Some x2" and x2: "(link_text, y) = x2" and y: "(link_path, rest) = y"
  obtain d b s3 e where d1: "dropWhile (\<lambda>x. x \<noteq> CHR '']'') cs = d # b # s3"
    and d2: "dropWhile (\<lambda>x. x \<noteq> CHR '')'') s3 = e # rest"
    using m x2 [symmetric] y [symmetric]
    by (simp add: match_link_def split: if_splits list.splits)
  have "length (d # b # s3) \<le> length cs"
    using length_dropWhile_le [of "\<lambda>x. x \<noteq> CHR '']''" cs] by (simp only: d1)
  moreover have "length (e # rest) \<le> length s3"
    using length_dropWhile_le [of "\<lambda>x. x \<noteq> CHR '')''" s3] by (simp only: d2)
  ultimately have "length rest < length (c # cs)"
    by simp
  then show "((Some CHR '')'', rest), (prev, c # cs)) \<in> measure (\<lambda>(prev, s). length s)"
    by simp
qed

text \<open>The callback of \<open>convert_mkdocs_to_wiki_link\<close>, on a match.\<close>

fun replace_link :: "piece \<Rightarrow> string" where
  "replace_link (Other c) = [c]"
| "replace_link (Link bang link_text link_path) =
     (if bang then group0 (Link bang link_text link_path)
      else if startswith [''http://'', ''https://'', ''#''] link_path
        then group0 (Link bang link_text link_path)
      else ''['' @ link_text @ '']('' @ wiki_page link_path @ '')'')"

definition convert_mkdocs_to_wiki_link :: "string \<Rightarrow> string" where
  "convert_mkdocs_to_wiki_link text = concat (map replace_link (finditer_links None text))"

section \<open>Paths\<close>

text \<open>
  A \<open>pathlib\<close> path on a POSIX host: its root (empty for a relative path, \<open>/\<close>, or \<open>//\<close>
  when the text starts with exactly two slashes) and its components.
\<close>

record pure_path =
  root :: string
  parts :: "string list"

text \<open>\<open>s.split('/')\<close>.\<close>

fun split_slash :: "string \<Rightarrow> string list" where
  "split_slash [] = [[]]"
| "split_slash (c # cs) =
     (if c = CHR ''/'' then [] # split_slash cs
      else (case split_slash cs of p # ps \<Rightarrow> (c # p) # ps | [] \<Rightarrow> [[c]]))"

text \<open>\<open>Path(s)\<close>: empty components and \<open>.\<close> are dropped, \<open>..\<close> is kept.\<close>

definition Path :: "string \<Rightarrow> pure_path" where
  "Path s =
     \<lparr>root = (if prefix ''//'' s \<and> \<not> prefix ''///'' s then ''//''
              else if prefix ''/'' s then ''/'' else []),
      parts = filter (\<lambda>p. p \<noteq> [] \<and> p \<noteq> ''.'') (split_slash s)\<rparr>"

text \<open>\<open>p / s\<close>: an absolute \<open>s\<close> replaces \<open>p\<close>.\<close>

definition truediv :: "pure_path \<Rightarrow> string \<Rightarrow> pure_path" where
  "truediv p s =
     (if prefix ''/'' s then Path s else \<lparr>root = root p, parts = parts p @ parts (Path s)\<rparr>)"

definition parent :: "pure_path \<Rightarrow> pure_path" where
  "parent p = \<lparr>root = root p, parts = butlast (parts p)\<rparr>"

text \<open>\<open>'/'.join(ps)\<close>.\<close>

fun join_slash :: "string list \<Rightarrow> string" where
  "join_slash [] = []"
| "join_slash [p] = p"
| "join_slash (p # q # ps) = p @ ''/'' @ join_slash (q # ps)"

text \<open>\<open>str(p)\<close>.\<close>

definition str_path :: "pure_path \<Rightarrow> string" where
  "str_path p = (if root p = [] \<and> parts p = [] then ''.'' else root p @ join_slash (parts p))"

datatype py_exn =
  ValueError | OSError | AttributeError | RuntimeError | CalledProcessError | TimeoutExpired

text \<open>
  \<open>p.relative_to(other)\<close>: \<open>ValueError\<close> unless \<open>other\<close>, root and components, is an
  initial part of \<open>p\<close>.
\<close>

definition relative_to :: "pure_path \<Rightarrow> pure_path \<Rightarrow> py_exn + pure_path" where
  "relative_to p other =
     (if root p = root other \<and> prefix (parts other) (parts p)
      then Inr \<lparr>root = [], parts = drop (length (parts other)) (parts p)\<rparr>
      else Inl ValueError)"

text \<open>
  \<open>Path.resolve()\<close> depends on the file system (symbolic links), so the environment
  below supplies it.  Where no component is a symbolic link it is this function: the
  path is made absolute from the working directory and \<open>..\<close> removes the component
  before it (nothing at the root).
\<close>

fun normpath :: "string list \<Rightarrow> string list \<Rightarrow> string list" where
  "normpath acc [] = acc"
| "normpath acc (p # ps) = normpath (if p = ''..'' then butlast acc else acc @ [p]) ps"

definition lexical_resolve :: "pure_path \<Rightarrow> pure_path \<Rightarrow> py_exn + pure_path" where
  "lexical_resolve working_dir p =
     Inr \<lparr>root = ''/'',
          parts = normpath [] (if root p = [] then parts working_dir @ parts p else parts p)\<rparr>"

section \<open>Environment\<close>

text \<open>
  The values of a parsed YAML document that the script tells apart: strings, mappings (in
  the order of the file), lists, and anything else.
\<close>

datatype yaml = Str string | Dict "(string \<times> yaml) list" | List "yaml list" | Scalar

text \<open>
  The keys of \<open>mkdocs.yml\<close> that the script reads after \<open>docs_dir\<close>, each absent or with
  its value: strings for the name and the description, a list for the navigation.
\<close>

record mkdocs =
  site_name :: "string option"
  site_description :: "string option"
  nav :: "yaml list option"

datatype node = File string | Directory

text \<open>
  What the script reads from outside the program: the variable \<open>GITHUB_REPOSITORY\<close>, the
  outcome of \<open>git config --get remote.origin.url\<close> (its output, or the exception
  \<open>subprocess.run\<close> raises), the working directory, \<open>Path.resolve\<close>, the documentation
  directory \<open>DOCS_DIR\<close>, the files (a regular file with its text, a directory, or nothing
  at a path), the paths below \<open>DOCS_DIR\<close> that \<open>DOCS_DIR.rglob("*.md")\<close> yields, each as
  its components, and \<open>mkdocs.yml\<close> as \<open>yaml.safe_load\<close> reads it (none if the file does
  not exist).
\<close>

record environment =
  GITHUB_REPOSITORY :: "string option"
  git_remote_url :: "py_exn + string"
  cwd :: pure_path
  resolve :: "pure_path \<Rightarrow> py_exn + pure_path"
  DOCS_DIR :: pure_path
  files :: "pure_path \<Rightarrow> node option"
  rglob_md :: "string list list"
  mkdocs_yml :: "mkdocs option"

text \<open>The warnings the script prints, with the values they show.\<close>

datatype warning =
  Not_a_GitHub_URL string
| Could_not_determine_repository string py_exn
| Could_not_convert_image_path string pure_path py_exn
| File_does_not_exist pure_path
| mkdocs_yml_not_found

section \<open>Image Path Resolver\<close>

text \<open>\<open>s.strip()\<close>: whitespace code points are removed from both ends.\<close>

function lstrip :: "string \<Rightarrow> string" where
  "lstrip s = (case skip_space s of None \<Rightarrow> s | Some r \<Rightarrow> lstrip r)"
  by pat_completeness auto
termination
proof (relation "measure length")
  show "wf (measure length)"
    by simp
next
  fix s r :: string
  assume "skip_space s = Some r"
  then obtain t where t: "find (\<lambda>t. prefix t s) py_whitespace = Some t" and r: "r = drop (length t) s"
    by (auto simp: skip_space_def split: option.splits)
  from t have "t \<in> set py_whitespace" and "prefix t s"
    by (auto simp: find_Some_iff)
  then have "t \<noteq> []" and "s \<noteq> []"
    by (auto simp: py_whitespace_def)
  with r show "(r, s) \<in> measure length"
    by simp
qed

function rstrip :: "string \<Rightarrow> string" where
  "rstrip s = (case skip_space_end s of None \<Rightarrow> s | Some r \<Rightarrow> rstrip r)"
  by pat_completeness auto
termination
proof (relation "measure length")
  show "wf (measure length)"
    by simp
next
  fix s r :: string
  assume "skip_space_end s = Some r"
  then obtain t where t: "find (\<lambda>t. suffix t s) py_whitespace = Some t"
    and r: "r = take (length s - length t) s"
    by (auto simp: skip_space_end_def split: option.splits)
  from t have "t \<in> set py_whitespace" and "suffix t s"
    by (auto simp: find_Some_iff)
  then have "t \<noteq> []" and "s \<noteq> []"
    by (auto simp: py_whitespace_def)
  with r show "(r, s) \<in> measure length"
    by simp
qed

definition strip :: "string \<Rightarrow> string" where
  "strip s = rstrip (lstrip s)"

text \<open>
  Lines 118 to 154: the repository name, a warning with which the reference is returned
  as it is, or an exception that no handler of the script catches.
\<close>

datatype repository = Repository string | Unchanged warning | Raised py_exn

definition GITHUB_HTTPS_PREFIX :: string where
  "GITHUB_HTTPS_PREFIX = ''https://github.com/''"

definition GITHUB_HTTP_PREFIX :: string where
  "GITHUB_HTTP_PREFIX = ''http://github.com/''"

definition GITHUB_GIT_PREFIX :: string where
  "GITHUB_GIT_PREFIX = ''git@github.com:''"

definition repo_part :: "string \<Rightarrow> string option" where
  "repo_part remote_url =
     (if prefix GITHUB_HTTPS_PREFIX remote_url
        then Some (drop (length GITHUB_HTTPS_PREFIX) remote_url)
      else if prefix GITHUB_HTTP_PREFIX remote_url
        then Some (drop (length GITHUB_HTTP_PREFIX) remote_url)
      else if prefix GITHUB_GIT_PREFIX remote_url
        then Some (drop (length GITHUB_GIT_PREFIX) remote_url)
      else None)"

definition github_repo :: "environment \<Rightarrow> string \<Rightarrow> repository" where
  "github_repo env image_path =
     (case GITHUB_REPOSITORY env of
        Some (c # cs) \<Rightarrow> Repository (c # cs)
      | _ \<Rightarrow>
        (case git_remote_url env of
           Inl e \<Rightarrow>
             if e = CalledProcessError \<or> e = TimeoutExpired
             then Unchanged (Could_not_determine_repository image_path e)
             else Raised e
         | Inr stdout \<Rightarrow>
             (case repo_part (strip stdout) of
                Some (c # cs) \<Rightarrow> Repository (py_replace ''.git'' [] (strip_chars CHR ''/'' (c # cs)))
              | _ \<Rightarrow> Unchanged (Not_a_GitHub_URL image_path))))"

text \<open>
  The callback of \<open>convert_image_paths\<close> on a match with groups \<open>alt_text\<close> and
  \<open>image_path\<close>: the replacement and the warnings printed, or the exception that leaves
  the function.  The handler of lines 171 to 174 catches \<open>ValueError\<close>, \<open>OSError\<close> and
  \<open>AttributeError\<close>.
\<close>

definition replace_image ::
  "environment \<Rightarrow> pure_path \<Rightarrow> string \<Rightarrow> string \<Rightarrow> py_exn + string \<times> warning list" where
  "replace_image env source_file alt_text image_path =
     (let original = ''!['' @ alt_text @ '']('' @ image_path @ '')'' in
      if startswith [''http://'', ''https://''] image_path then Inr (original, [])
      else
        (case github_repo env image_path of
           Raised e \<Rightarrow> Inl e
         | Unchanged w \<Rightarrow> Inr (original, [w])
         | Repository repo \<Rightarrow>
             (case
                (case resolve env (truediv (parent source_file) image_path) of
                   Inl e \<Rightarrow> Inl e
                 | Inr image_abs_path \<Rightarrow> relative_to image_abs_path (cwd env))
              of
                Inl e \<Rightarrow>
                  if e = ValueError \<or> e = OSError \<or> e = AttributeError
                  then Inr (original, [Could_not_convert_image_path image_path source_file e])
                  else Inl e
              | Inr image_rel_path \<Rightarrow>
                  Inr (''!['' @ alt_text @ '']('' @ ''https://raw.githubusercontent.com/'' @ repo
                         @ ''/main/'' @ py_replace [CHR 0x5C] ''/'' (str_path image_rel_path) @ '')'',
                       []))))"

text \<open>The pattern \<open>!\[([^\]]*)\]\(([^)]+)\)\<close> at the start of \<open>s\<close>; the alternative text may be empty.\<close>

definition match_image :: "string \<Rightarrow> (string \<times> string \<times> string) option" where
  "match_image s =
     (case s of
        a # c # s1 \<Rightarrow>
          if a = CHR ''!'' \<and> c = CHR ''['' then
            (case dropWhile (\<lambda>x. x \<noteq> CHR '']'') s1 of
               _ # b # s3 \<Rightarrow>
                 if b = CHR ''('' \<and> takeWhile (\<lambda>x. x \<noteq> CHR '')'') s3 \<noteq> [] then
                   (case dropWhile (\<lambda>x. x \<noteq> CHR '')'') s3 of
                      _ # rest \<Rightarrow>
                        Some (takeWhile (\<lambda>x. x \<noteq> CHR '']'') s1,
                              takeWhile (\<lambda>x. x \<noteq> CHR '')'') s3, rest)
                    | [] \<Rightarrow> None)
                 else None
             | _ \<Rightarrow> None)
          else None
      | _ \<Rightarrow> None)"

text \<open>
  \<open>convert_image_paths\<close>: \<open>re.sub\<close> with \<open>replace_image\<close>.  An exception of the callback
  leaves \<open>re.sub\<close> and the function; otherwise the result is the new text and the
  warnings, in the order printed.
\<close>

function convert_image_paths ::
  "environment \<Rightarrow> pure_path \<Rightarrow> string \<Rightarrow> py_exn + string \<times> warning list" where
  "convert_image_paths env source_file [] = Inr ([], [])"
| "convert_image_paths env source_file (c # cs) =
     (case match_image (c # cs) of
        None \<Rightarrow>
          (case convert_image_paths env source_file cs of
             Inl e \<Rightarrow> Inl e
           | Inr (out, ws) \<Rightarrow> Inr (c # out, ws))
      | Some (alt_text, image_path, rest) \<Rightarrow>
          (case replace_image env source_file alt_text image_path of
             Inl e \<Rightarrow> Inl e
           | Inr (new, ws1) \<Rightarrow>
               (case convert_image_paths env source_file rest of
                  Inl e \<Rightarrow> Inl e
                | Inr (out, ws2) \<Rightarrow> Inr (new @ out, ws1 @ ws2))))"
  by pat_completeness auto
termination
proof (relation "measure (\<lambda>(env, source_file, s). length s)")
  show "wf (measure (\<lambda>(env, source_file, s). length s))"
    by simp
next
  fix env :: environment and source_file :: pure_path and c :: char and cs :: string
  show "((env, source_file, cs), (env, source_file, c # cs))
          \<in> measure (\<lambda>(env, source_file, s). length s)"
    by simp
next
  fix env :: environment and source_file :: pure_path and c :: char
    and cs x2 alt_text y image_path rest b new ws1
  assume m: "match_image (c # cs) = Some x2" and x2: "(alt_text, y) = x2"
    and y: "(image_path, rest) = y"
  obtain a s1 d b s3 e where cs: "cs = a # s1"
    and d1: "dropWhile (\<lambda>x. x \<noteq> CHR '']'') s1 = d # b # s3"
    and d2: "dropWhile (\<lambda>x. x \<noteq> CHR '')'') s3 = e # rest"
    using m x2 [symmetric] y [symmetric]
    by (simp add: match_image_def split: if_splits list.splits)
  have "length (d # b # s3) \<le> length s1"
    using length_dropWhile_le [of "\<lambda>x. x \<noteq> CHR '']''" s1] by (simp only: d1)
  moreover have "length (e # rest) \<le> length s3"
    using length_dropWhile_le [of "\<lambda>x. x \<noteq> CHR '')''" s3] by (simp only: d2)
  ultimately have "length rest < length (c # cs)"
    by (simp add: cs)
  then show "((env, source_file, rest), (env, source_file, c # cs))
          \<in> measure (\<lambda>(env, source_file, s). length s)"
    by simp
qed

section \<open>Document Processor\<close>

text \<open>
  The front matter pattern \<open>^---\s*\n.*?\n---\s*\n\<close> with \<open>re.DOTALL\<close>.  A greedy \<open>\s*\<close>
  followed by \<open>\n\<close> stops after a line feed of the whitespace run, the last one first;
  \<open>whitespace_newlines s\<close> lists what follows each line feed of the run at the start of
  \<open>s\<close>, the first one first.
\<close>

function whitespace_newlines :: "string \<Rightarrow> string list" where
  "whitespace_newlines s =
     (case skip_space s of
        None \<Rightarrow> []
      | Some r \<Rightarrow> (if prefix [CHR 0x0A] s then [r] else []) @ whitespace_newlines r)"
  by pat_completeness auto
termination
proof (relation "measure length")
  show "wf (measure length)"
    by simp
next
  fix s r :: string
  assume "skip_space s = Some r"
  then obtain t where t: "find (\<lambda>t. prefix t s) py_whitespace = Some t" and r: "r = drop (length t) s"
    by (auto simp: skip_space_def split: option.splits)
  from t have "t \<in> set py_whitespace" and "prefix t s"
    by (auto simp: find_Some_iff)
  then have "t \<noteq> []" and "s \<noteq> []"
    by (auto simp: py_whitespace_def)
  with r show "(r, s) \<in> measure length"
    by simp
qed

text \<open>
  The end of the pattern, \<open>\s*\n\<close>, at the start of \<open>s\<close>: nothing follows it in the pattern,
  so the first attempt that succeeds is the one that stops after the last line feed.
\<close>

definition closing_rest :: "string \<Rightarrow> string option" where
  "closing_rest s = (case whitespace_newlines s of [] \<Rightarrow> None | r # rs \<Rightarrow> Some (last (r # rs)))"

text \<open>
  \<open>.*?\n---\s*\n\<close> at the start of \<open>s\<close>: the lazy \<open>.*?\<close> grows by one character at a time
  until the rest of the pattern matches.  The result is the text after the match.
\<close>

fun lazy_closing :: "string \<Rightarrow> string option" where
  "lazy_closing [] = None"
| "lazy_closing (c # cs) =
     (if prefix [CHR 0x0A, CHR ''-'', CHR ''-'', CHR ''-''] (c # cs) then
        (case closing_rest (drop 4 (c # cs)) of
           None \<Rightarrow> lazy_closing cs
         | Some rest \<Rightarrow> Some rest)
      else lazy_closing cs)"

text \<open>The candidates for the end of the opening \<open>---\s*\n\<close>, in the order they are tried.\<close>

fun first_closing :: "string list \<Rightarrow> string option" where
  "first_closing [] = None"
| "first_closing (r # rs) =
     (case lazy_closing r of None \<Rightarrow> first_closing rs | Some rest \<Rightarrow> Some rest)"

text \<open>
  \<open>re.sub(r'^---\s*\n.*?\n---\s*\n', '', content, flags=re.DOTALL)\<close>: the pattern can match
  at the start of the text only, and the match is replaced by nothing.
\<close>

definition remove_front_matter :: "string \<Rightarrow> string" where
  "remove_front_matter content =
     (if prefix ''---'' content then
        (case first_closing (rev (whitespace_newlines (drop 3 content))) of
           None \<Rightarrow> content
         | Some rest \<Rightarrow> rest)
      else content)"

text \<open>
  What the script has written and printed: the files of the wiki directory by name with
  their text, in the order written, and the warnings.  (The messages that are not
  warnings are left out.)
\<close>

record wiki =
  written :: "(string \<times> string) list"
  printed :: "warning list"

text \<open>\<open>open(path, 'r')\<close> and \<open>read()\<close>: a missing file and a directory raise \<open>OSError\<close>.\<close>

definition read_text :: "environment \<Rightarrow> pure_path \<Rightarrow> py_exn + string" where
  "read_text env path =
     (case files env path of Some (File content) \<Rightarrow> Inr content | _ \<Rightarrow> Inl OSError)"

text \<open>\<open>process_markdown_file\<close>; the output path is given by its file name in the wiki directory.\<close>

definition process_markdown_file ::
  "environment \<Rightarrow> pure_path \<Rightarrow> string \<Rightarrow> wiki \<Rightarrow> py_exn + wiki" where
  "process_markdown_file env source_path output_name w =
     (case read_text env source_path of
        Inl e \<Rightarrow> Inl e
      | Inr content \<Rightarrow>
          (case convert_image_paths env source_path
                  (convert_mkdocs_to_wiki_link (remove_front_matter content)) of
             Inl e \<Rightarrow> Inl e
           | Inr (content', ws) \<Rightarrow>
               Inr (w\<lparr>written := written w @ [(output_name, content')],
                      printed := printed w @ ws\<rparr>)))"

definition create_wiki_page ::
  "environment \<Rightarrow> string \<Rightarrow> pure_path \<Rightarrow> string \<Rightarrow> wiki \<Rightarrow> py_exn + wiki" where
  "create_wiki_page env title file_path wiki_name w =
     (if files env file_path = None
      then Inr (w\<lparr>printed := printed w @ [File_does_not_exist file_path]\<rparr>)
      else
        (case read_text env file_path of
           Inl e \<Rightarrow> Inl e
         | Inr first_line \<Rightarrow> process_markdown_file env file_path (wiki_name @ ''.md'') w))"

section \<open>Navigation Walker\<close>

text \<open>The page name \<open>parse_nav_item\<close> computes from a path of the navigation (lines 231, 232 and 250, 251).\<close>

definition nav_wiki_name :: "string \<Rightarrow> string" where
  "nav_wiki_name v =
     py_replace ''-index'' []
       (py_replace ''_'' ''-'' (py_replace ''/'' ''-'' (py_replace ''.md'' [] v)))"

text \<open>
  \<open>parse_nav_item\<close> with its two loops: over the items of a mapping and over the list of
  a section.  The result is the list of pages and the wiki after the pages are created,
  or the exception that leaves the function.  The parameter \<open>prefix\<close> of the source is
  \<open>section_title\<close> here.
\<close>

fun parse_nav_item ::
    "environment \<Rightarrow> yaml \<Rightarrow> string \<Rightarrow> wiki \<Rightarrow> py_exn + (string \<times> string) list \<times> wiki"
  and parse_items ::
    "environment \<Rightarrow> (string \<times> yaml) list \<Rightarrow> string \<Rightarrow> wiki \<Rightarrow> py_exn + (string \<times> string) list \<times> wiki"
  and parse_sub_items ::
    "environment \<Rightarrow> yaml list \<Rightarrow> string \<Rightarrow> wiki \<Rightarrow> py_exn + (string \<times> string) list \<times> wiki"
where
  "parse_nav_item env (Dict kvs) section_title w = parse_items env kvs section_title w"
| "parse_nav_item env (Str item) section_title w =
     (case create_wiki_page env [] (truediv (DOCS_DIR env) item) (nav_wiki_name item) w of
        Inl e \<Rightarrow> Inl e
      | Inr w' \<Rightarrow> Inr ([([], nav_wiki_name item)], w'))"
| "parse_nav_item env (List xs) section_title w = Inr ([], w)"
| "parse_nav_item env Scalar section_title w = Inr ([], w)"
| "parse_items env [] section_title w = Inr ([], w)"
| "parse_items env ((key, Str v) # kvs) section_title w =
     (let full_title = (if section_title \<noteq> [] then section_title @ '' '' @ key else key) in
      case create_wiki_page env full_title (truediv (DOCS_DIR env) v) (nav_wiki_name v) w of
        Inl e \<Rightarrow> Inl e
      | Inr w' \<Rightarrow>
          (case parse_items env kvs section_title w' of
             Inl e \<Rightarrow> Inl e
           | Inr (pages, w'') \<Rightarrow> Inr ((full_title, nav_wiki_name v) # pages, w'')))"
| "parse_items env ((key, List sub_items) # kvs) section_title w =
     (case parse_sub_items env sub_items key w of
        Inl e \<Rightarrow> Inl e
      | Inr (sub_pages, w') \<Rightarrow>
          (case parse_items env kvs section_title w' of
             Inl e \<Rightarrow> Inl e
           | Inr (pages, w'') \<Rightarrow> Inr (sub_pages @ pages, w'')))"
| "parse_items env ((key, Dict d) # kvs) section_title w = parse_items env kvs section_title w"
| "parse_items env ((key, Scalar) # kvs) section_title w = parse_items env kvs section_title w"
| "parse_sub_items env [] key w = Inr ([], w)"
| "parse_sub_items env (sub_item # sub_items) key w =
     (case parse_nav_item env sub_item key w of
        Inl e \<Rightarrow> Inl e
      | Inr (sub_pages, w') \<Rightarrow>
          (case parse_sub_items env sub_items key w' of
             Inl e \<Rightarrow> Inl e
           | Inr (pages, w'') \<Rightarrow> Inr (sub_pages @ pages, w'')))"

section \<open>Sidebar and Home page\<close>

text \<open>\<open>config.get('site_name', 'Documentation')\<close>, and the default when there is no \<open>mkdocs.yml\<close>.\<close>

definition get_site_name :: "environment \<Rightarrow> string" where
  "get_site_name env =
     (case mkdocs_yml env of
        None \<Rightarrow> ''Documentation''
      | Some config \<Rightarrow> (case site_name config of None \<Rightarrow> ''Documentation'' | Some n \<Rightarrow> n))"

text \<open>The loop of \<open>create_sidebar\<close> (lines 275 to 277) on the text built so far.\<close>

fun sidebar_entries :: "string \<Rightarrow> (string \<times> string) list \<Rightarrow> string" where
  "sidebar_entries sidebar_content [] = sidebar_content"
| "sidebar_entries sidebar_content ((title, wiki_name) # pages) =
     sidebar_entries
       (if wiki_name \<noteq> [] \<and> title \<noteq> []
        then sidebar_content @ ''- ['' @ title @ '']('' @ wiki_name @ '')'' @ [CHR 0x0A]
        else sidebar_content)
       pages"

text \<open>The heading of the sidebar; the eight bytes after \<open>#\<close> are the ones of the source file.\<close>

definition sidebar_heading :: "string \<Rightarrow> string" where
  "sidebar_heading name =
     ''# '' @ [CHR 0xC3, CHR 0xB0, CHR 0xC5, CHR 0xB8, CHR 0xE2, CHR 0x80, CHR 0x9C, CHR 0xC5, CHR 0xA1]
       @ '' '' @ name @ '' Wiki'' @ [CHR 0x0A, CHR 0x0A]
       @ ''## Table of Contents'' @ [CHR 0x0A, CHR 0x0A]"

definition create_sidebar :: "environment \<Rightarrow> (string \<times> string) list \<Rightarrow> wiki \<Rightarrow> wiki" where
  "create_sidebar env pages w =
     w\<lparr>written := written w
         @ [(''_Sidebar.md'', sidebar_entries (sidebar_heading (get_site_name env)) pages)]\<rparr>"

text \<open>The text \<open>create_home_page\<close> starts from (lines 290 to 322).\<close>

definition home_content :: "environment \<Rightarrow> py_exn + string" where
  "home_content env =
     (if files env (truediv (DOCS_DIR env) ''index.md'') \<noteq> None then
        (case read_text env (truediv (DOCS_DIR env) ''index.md'') of
           Inl e \<Rightarrow> Inl e
         | Inr content \<Rightarrow> Inr (remove_front_matter content))
      else if files env (Path ''README.md'') \<noteq> None then read_text env (Path ''README.md'')
      else
        Inr (''# '' @ get_site_name env @ [CHR 0x0A, CHR 0x0A]
             @ (case mkdocs_yml env of
                  None \<Rightarrow> []
                | Some config \<Rightarrow>
                    (case site_description config of
                       None \<Rightarrow> []
                     | Some d \<Rightarrow> if d \<noteq> [] then d @ [CHR 0x0A, CHR 0x0A] else []))
             @ ''Welcome to the wiki!'' @ [CHR 0x0A]))"

definition create_home_page :: "environment \<Rightarrow> wiki \<Rightarrow> py_exn + wiki" where
  "create_home_page env w =
     (case home_content env of
        Inl e \<Rightarrow> Inl e
      | Inr content \<Rightarrow>
          Inr (w\<lparr>written := written w @ [(''Home.md'', convert_mkdocs_to_wiki_link content)]\<rparr>))"

section \<open>The run\<close>

text \<open>The page name of the fallback of \<open>main\<close>, from the path relative to \<open>DOCS_DIR\<close> (line 352).\<close>

definition fallback_wiki_name :: "string \<Rightarrow> string" where
  "fallback_wiki_name rel_path =
     py_replace ''_'' ''-'' (py_replace ''/'' ''-'' (py_replace ''.md'' [] rel_path))"

text \<open>The loop of lines 349 to 354 over the paths that \<open>rglob\<close> yields.\<close>

fun fallback_pages ::
  "environment \<Rightarrow> string list list \<Rightarrow> wiki \<Rightarrow> py_exn + (string \<times> string) list \<times> wiki" where
  "fallback_pages env [] w = Inr ([], w)"
| "fallback_pages env (rel # rels) w =
     (let md_file = \<lparr>root = root (DOCS_DIR env), parts = parts (DOCS_DIR env) @ rel\<rparr> in
      case files env md_file of
        Some (File content) \<Rightarrow>
          (let wiki_name = fallback_wiki_name (str_path \<lparr>root = [], parts = rel\<rparr>) in
           case create_wiki_page env wiki_name md_file wiki_name w of
             Inl e \<Rightarrow> Inl e
           | Inr w' \<Rightarrow>
               (case fallback_pages env rels w' of
                  Inl e \<Rightarrow> Inl e
                | Inr (pages, w'') \<Rightarrow> Inr ((wiki_name, wiki_name) # pages, w'')))
      | _ \<Rightarrow> fallback_pages env rels w)"

text \<open>The loop of lines 362 to 364 over the items of \<open>nav\<close>.\<close>

fun nav_pages ::
  "environment \<Rightarrow> yaml list \<Rightarrow> wiki \<Rightarrow> py_exn + (string \<times> string) list \<times> wiki" where
  "nav_pages env [] w = Inr ([], w)"
| "nav_pages env (item # items) w =
     (case parse_nav_item env item [] w of
        Inl e \<Rightarrow> Inl e
      | Inr (item_pages, w') \<Rightarrow>
          (case nav_pages env items w' of
             Inl e \<Rightarrow> Inl e
           | Inr (pages, w'') \<Rightarrow> Inr (item_pages @ pages, w'')))"

text \<open>
  \<open>main\<close>, from a wiki directory that \<open>clean_wiki_dir\<close> has emptied: the pages and the wiki
  at the end of the run.
\<close>

definition main :: "environment \<Rightarrow> py_exn + (string \<times> string) list \<times> wiki" where
  "main env =
     (case create_home_page env \<lparr>written = [], printed = []\<rparr> of
        Inl e \<Rightarrow> Inl e
      | Inr w \<Rightarrow>
          (case
             (case mkdocs_yml env of
                None \<Rightarrow>
                  fallback_pages env (rglob_md env) (w\<lparr>printed := printed w @ [mkdocs_yml_not_found]\<rparr>)
              | Some config \<Rightarrow>
                  nav_pages env (case nav config of None \<Rightarrow> [] | Some items \<Rightarrow> items) w)
           of
             Inl e \<Rightarrow> Inl e
           | Inr (pages, w') \<Rightarrow> Inr (pages, create_sidebar env pages w')))"

section \<open>Notions of the specification\<close>

declare whitespace_newlines.simps [simp del] lstrip.simps [simp del] rstrip.simps [simp del]

text \<open>
  The text begins with a line of three dashes: three dashes, then whitespace up to a
  line feed.
\<close>

definition opening_line :: "string \<Rightarrow> bool" where
  "opening_line s = (prefix ''---'' s \<and> whitespace_newlines (drop 3 s) \<noteq> [])"

text \<open>
  Somewhere in the text a line of three dashes ends with a line feed: a line feed, three
  dashes, then whitespace up to a line feed.
\<close>

fun has_closing_line :: "string \<Rightarrow> bool" where
  "has_closing_line [] = False"
| "has_closing_line (c # cs) =
     (if prefix [CHR 0x0A, CHR ''-'', CHR ''-'', CHR ''-''] (c # cs)
         \<and> whitespace_newlines (drop 4 (c # cs)) \<noteq> []
      then True else has_closing_line cs)"

text \<open>Path separators and underscores become dashes, everywhere in the text.\<close>

definition dashes :: "string \<Rightarrow> string" where
  "dashes s = map (\<lambda>c. if c = CHR ''/'' \<or> c = CHR ''_'' then CHR ''-'' else c) s"

text \<open>
  A path whose form after the removal of \<open>.md\<close> and the change to dashes neither begins
  with a dot or a dash nor ends with a dash.
\<close>

definition plain_path :: "string \<Rightarrow> bool" where
  "plain_path p =
     (\<not> prefix ''.'' (dashes (py_replace ''.md'' [] p))
      \<and> \<not> prefix ''-'' (dashes (py_replace ''.md'' [] p))
      \<and> \<not> suffix ''-'' (dashes (py_replace ''.md'' [] p)))"

text \<open>
  The document paths of a navigation tree, in the order in which \<open>parse_nav_item\<close> comes to
  them: of an item, of the items of a mapping, and of a list of items.
\<close>

fun item_paths :: "yaml \<Rightarrow> string list"
  and items_paths :: "(string \<times> yaml) list \<Rightarrow> string list"
  and sub_items_paths :: "yaml list \<Rightarrow> string list"
where
  "item_paths (Dict kvs) = items_paths kvs"
| "item_paths (Str item) = [item]"
| "item_paths (List xs) = []"
| "item_paths Scalar = []"
| "items_paths [] = []"
| "items_paths ((key, Str v) # kvs) = v # items_paths kvs"
| "items_paths ((key, List sub_items) # kvs) = sub_items_paths sub_items @ items_paths kvs"
| "items_paths ((key, Dict d) # kvs) = items_paths kvs"
| "items_paths ((key, Scalar) # kvs) = items_paths kvs"
| "sub_items_paths [] = []"
| "sub_items_paths (sub_item # sub_items) = item_paths sub_item @ sub_items_paths sub_items"

text \<open>
  A walk over \<open>paths\<close> from the wiki \<open>w\<close>: the pages carry the names \<open>parse_nav_item\<close>
  computes, in order, and one file per path that exists was written after those of \<open>w\<close>,
  named by the page name, in order.
\<close>

definition walked ::
  "environment \<Rightarrow> string list \<Rightarrow> wiki \<Rightarrow> (string \<times> string) list \<Rightarrow> wiki \<Rightarrow> bool" where
  "walked env paths w pages w' =
     (map snd pages = map nav_wiki_name paths \<and>
      (\<exists>new. written w' = written w @ new \<and>
         map fst new =
           map (\<lambda>p. nav_wiki_name p @ ''.md'')
             (filter (\<lambda>p. files env (truediv (DOCS_DIR env) p) \<noteq> None) paths)))"

text \<open>An environment for the examples: a repository with an index page and one document.\<close>

definition example_environment :: environment where
  "example_environment =
     \<lparr>GITHUB_REPOSITORY = Some ''alice/docs'', git_remote_url = Inl CalledProcessError,
      cwd = Path ''/repo'', resolve = lexical_resolve (Path ''/repo''), DOCS_DIR = Path ''docs'',
      files = (\<lambda>p. if p = Path ''docs/guide/page.md''
                     then Some (File ''See [home](index.md) and ![x](../assets/pic.png).'')
                   else if p = Path ''docs/index.md''
                     then Some (File ''---\<newline>title: Home\<newline>---\<newline>[Guide](guide/page.md) ![x](assets/pic_1.png)'')
                   else None),
      rglob_md = [[''index.md''], [''guide'', ''page.md'']], mkdocs_yml = None\<rparr>"

text \<open>
  A repository without \<open>mkdocs.yml\<close>, index page and readme, where \<open>page.md\<close> links to
  \<open>guide/index.md\<close>.
\<close>

definition index_link_environment :: environment where
  "index_link_environment =
     \<lparr>GITHUB_REPOSITORY = Some ''alice/docs'', git_remote_url = Inl CalledProcessError,
      cwd = Path ''/repo'', resolve = lexical_resolve (Path ''/repo''), DOCS_DIR = Path ''docs'',
      files = (\<lambda>p. if p = Path ''docs/page.md'' then Some (File ''See [guide](guide/index.md).'')
                   else if p = Path ''docs/guide/index.md'' then Some (File ''Guide'')
                   else None),
      rglob_md = [[''page.md''], [''guide'', ''index.md'']], mkdocs_yml = None\<rparr>"

text \<open>
  A repository whose navigation lists \<open>page.md\<close> and \<open>_drafts/page.md\<close>, where the first
  links to the second.
\<close>

definition drafts_link_environment :: environment where
  "drafts_link_environment =
     \<lparr>GITHUB_REPOSITORY = Some ''alice/docs'', git_remote_url = Inl CalledProcessError,
      cwd = Path ''/repo'', resolve = lexical_resolve (Path ''/repo''), DOCS_DIR = Path ''docs'',
      files = (\<lambda>p. if p = Path ''docs/page.md'' then Some (File ''See [d](_drafts/page.md).'')
                   else if p = Path ''docs/_drafts/page.md'' then Some (File ''Draft'')
                   else None),
      rglob_md = [[''page.md''], [''_drafts'', ''page.md'']],
      mkdocs_yml =
        Some \<lparr>site_name = None, site_description = None,
              nav = Some [Dict [(''Page'', Str ''page.md'')], Dict [(''Drafts'', Str ''_drafts/page.md'')]]\<rparr>\<rparr>"


text \<open>
  A path that \<open>rglob\<close> yields is a regular file (\<open>md_file.is_file()\<close>), and the page name
  the fallback gives it.
\<close>

definition is_file :: "environment \<Rightarrow> string list \<Rightarrow> bool" where
  "is_file env rel =
     (case files env \<lparr>root = root (DOCS_DIR env), parts = parts (DOCS_DIR env) @ rel\<rparr> of
        Some (File content) \<Rightarrow> True
      | _ \<Rightarrow> False)"

definition fallback_name :: "string list \<Rightarrow> string" where
  "fallback_name rel = fallback_wiki_name (str_path \<lparr>root = [], parts = rel\<rparr>)"

text \<open>
  The repository identity cannot be determined: \<open>GITHUB_REPOSITORY\<close> is not set (or empty),
  and the query of the remote fails (non-zero exit or timeout) or its answer has none of
  the three GitHub prefixes (or nothing after the prefix).
\<close>

definition identity_unknown :: "environment \<Rightarrow> bool" where
  "identity_unknown env =
     ((GITHUB_REPOSITORY env = None \<or> GITHUB_REPOSITORY env = Some [])
      \<and> (case git_remote_url env of
           Inl e \<Rightarrow> e = CalledProcessError \<or> e = TimeoutExpired
         | Inr stdout \<Rightarrow> repo_part (strip stdout) = None \<or> repo_part (strip stdout) = Some []))"

text \<open>The resolved path lies outside the repository root, the working directory.\<close>

definition outside_root :: "environment \<Rightarrow> pure_path \<Rightarrow> bool" where
  "outside_root env p =
     (case resolve env p of
        Inl e \<Rightarrow> False
      | Inr a \<Rightarrow> \<not> (root a = root (cwd env) \<and> prefix (parts (cwd env)) (parts a)))"

text \<open>
  The resolution of a path fails: the result lies outside the repository root, or
  \<open>resolve\<close> raises \<open>OSError\<close> (an I/O error) or \<open>ValueError\<close>.
\<close>

definition resolution_fails :: "environment \<Rightarrow> pure_path \<Rightarrow> bool" where
  "resolution_fails env p =
     (outside_root env p \<or> resolve env p = Inl OSError \<or> resolve env p = Inl ValueError)"

text \<open>
  Every failure the environment can produce is one of those above: the query of the
  remote, when it is made and raises, raises \<open>CalledProcessError\<close> or \<open>TimeoutExpired\<close>, and
  \<open>resolve\<close> raises nothing but \<open>ValueError\<close>, \<open>OSError\<close> or \<open>AttributeError\<close>.
\<close>

definition only_caught_failures :: "environment \<Rightarrow> bool" where
  "only_caught_failures env =
     (((GITHUB_REPOSITORY env = None \<or> GITHUB_REPOSITORY env = Some []) \<longrightarrow>
         (case git_remote_url env of
            Inl e \<Rightarrow> e = CalledProcessError \<or> e = TimeoutExpired
          | Inr stdout \<Rightarrow> True))
      \<and> (\<forall>p. case resolve env p of
                Inl e \<Rightarrow> e = ValueError \<or> e = OSError \<or> e = AttributeError
              | Inr a \<Rightarrow> True))"

section \<open>Properties\<close>

subsection \<open>Sidebar\<close>

lemma sidebar_entries_append:
  "sidebar_entries acc pages =
     acc @ concat (map (\<lambda>(title, wiki_name). ''- ['' @ title @ '']('' @ wiki_name @ '')'' @ [CHR 0x0A])
                    (filter (\<lambda>(title, wiki_name). title \<noteq> [] \<and> wiki_name \<noteq> []) pages))"
  by (induction acc pages rule: sidebar_entries.induct) simp_all

text \<open>
  Claim C8.  For every list of page entries, the sidebar that \<open>create_sidebar\<close> writes is its
  heading followed by exactly one list line \<open>- [title](identifier)\<close> for each entry whose
  title and identifier are both non-empty, in the order of the entries; an entry with an
  empty title or an empty identifier contributes nothing.
\<close>

theorem sidebar_one_line_per_titled_page:
  "written (create_sidebar env pages w) =
     written w @
       [(''_Sidebar.md'',
         sidebar_heading (get_site_name env) @
         concat (map (\<lambda>(title, wiki_name). ''- ['' @ title @ '']('' @ wiki_name @ '')'' @ [CHR 0x0A])
                   (filter (\<lambda>(title, wiki_name). title \<noteq> [] \<and> wiki_name \<noteq> []) pages)))]"
  by (simp add: create_sidebar_def sidebar_entries_append)

subsection \<open>Image Path Resolver\<close>

lemma normpath_append: "''..'' \<notin> set xs \<Longrightarrow> normpath acc (xs @ ys) = normpath (acc @ xs) ys"
  by (induction xs arbitrary: acc) auto

text \<open>
  Claim C6.  With repository identity \<open>alice/docs\<close> and the working directory as repository
  root (an absolute path without \<open>..\<close>, as \<open>Path.cwd()\<close> returns it, on a file system where
  \<open>resolve\<close> meets no symbolic link), the image reference \<open>![x](../assets/pic.png)\<close> of the
  document \<open>docs/guide/page.md\<close> becomes
  \<open>![x](https://raw.githubusercontent.com/alice/docs/main/docs/assets/pic.png)\<close>, and no
  warning is printed.
\<close>

theorem image_reference_example:
  assumes repo: "github_repo env ''../assets/pic.png'' = Repository ''alice/docs''"
    and res: "resolve env = lexical_resolve (cwd env)"
    and abs: "root (cwd env) = ''/''" and norm: "''..'' \<notin> set (parts (cwd env))"
  shows "convert_image_paths env (Path ''docs/guide/page.md'') ''![x](../assets/pic.png)'' =
           Inr (''![x](https://raw.githubusercontent.com/alice/docs/main/docs/assets/pic.png)'', [])"
proof -
  have m: "match_image ''![x](../assets/pic.png)'' = Some (''x'', ''../assets/pic.png'', [])"
    by (simp add: match_image_def)
  have p: "truediv (parent (Path ''docs/guide/page.md'')) ''../assets/pic.png''
             = \<lparr>root = [], parts = [''docs'', ''guide'', ''..'', ''assets'', ''pic.png'']\<rparr>"
    by (simp add: truediv_def parent_def Path_def)
  have n: "normpath [] (parts (cwd env) @ [''docs'', ''guide'', ''..'', ''assets'', ''pic.png''])
             = parts (cwd env) @ [''docs'', ''assets'', ''pic.png'']"
    using norm by (simp add: normpath_append butlast_append)
  have r: "replace_image env (Path ''docs/guide/page.md'') ''x'' ''../assets/pic.png'' =
           Inr (''![x](https://raw.githubusercontent.com/alice/docs/main/docs/assets/pic.png)'', [])"
    unfolding replace_image_def Let_def repo p res
    by (simp add: startswith_def lexical_resolve_def n relative_to_def abs str_path_def)
  show ?thesis
    by (simp add: m r)
qed

theorem image_reference_example_witness:
  "github_repo
     \<lparr>GITHUB_REPOSITORY = Some ''alice/docs'', git_remote_url = Inl CalledProcessError,
      cwd = Path ''/home/runner/work'', resolve = lexical_resolve (Path ''/home/runner/work''),
      DOCS_DIR = Path ''docs'', files = (\<lambda>p. None), rglob_md = [], mkdocs_yml = None\<rparr>
     ''../assets/pic.png'' = Repository ''alice/docs''
   \<and> convert_image_paths
     \<lparr>GITHUB_REPOSITORY = Some ''alice/docs'', git_remote_url = Inl CalledProcessError,
      cwd = Path ''/home/runner/work'', resolve = lexical_resolve (Path ''/home/runner/work''),
      DOCS_DIR = Path ''docs'', files = (\<lambda>p. None), rglob_md = [], mkdocs_yml = None\<rparr>
     (Path ''docs/guide/page.md'') ''![x](../assets/pic.png)'' =
       Inr (''![x](https://raw.githubusercontent.com/alice/docs/main/docs/assets/pic.png)'', [])"
  using image_reference_example
    [of "\<lparr>GITHUB_REPOSITORY = Some ''alice/docs'', git_remote_url = Inl CalledProcessError,
      cwd = Path ''/home/runner/work'', resolve = lexical_resolve (Path ''/home/runner/work''),
      DOCS_DIR = Path ''docs'', files = (\<lambda>p. None), rglob_md = [], mkdocs_yml = None\<rparr>"]
  by (simp add: github_repo_def Path_def)

subsection \<open>Front matter\<close>

lemma skip_space_suffix: "skip_space s = Some r \<Longrightarrow> suffix r s"
  by (auto simp: skip_space_def suffix_drop split: option.splits)

lemma whitespace_newlines_suffix: "r \<in> set (whitespace_newlines s) \<Longrightarrow> suffix r s"
proof (induction s rule: whitespace_newlines.induct)
  case (1 s)
  show ?case
  proof (cases "skip_space s")
    case None
    with "1.prems" show ?thesis
      by (simp add: whitespace_newlines.simps [of s])
  next
    case (Some r')
    then have s: "suffix r' s"
      by (rule skip_space_suffix)
    from "1.prems" Some have "r = r' \<or> r \<in> set (whitespace_newlines r')"
      by (auto simp: whitespace_newlines.simps [of s] split: if_splits)
    then show ?thesis
      using "1.IH" [OF Some] s suffix_order.trans by blast
  qed
qed

lemma closing_rest_Some:
  "closing_rest s = Some rest \<Longrightarrow> whitespace_newlines s \<noteq> [] \<and> suffix rest s"
proof -
  assume a: "closing_rest s = Some rest"
  then have ne: "whitespace_newlines s \<noteq> []" and "rest = last (whitespace_newlines s)"
    by (auto simp: closing_rest_def split: list.splits)
  then have "rest \<in> set (whitespace_newlines s)"
    by simp
  with ne show ?thesis
    by (simp add: whitespace_newlines_suffix)
qed

lemma lazy_closing_Some:
  "lazy_closing s = Some rest \<Longrightarrow> has_closing_line s \<and> suffix rest s \<and> rest \<noteq> s"
proof (induction s)
  case Nil
  then show ?case by simp
next
  case (Cons c cs)
  show ?case
  proof (cases "prefix [CHR 0x0A, CHR ''-'', CHR ''-'', CHR ''-''] (c # cs) \<and> closing_rest (drop 4 (c # cs)) = Some rest")
    case True
    then have "whitespace_newlines (drop 4 (c # cs)) \<noteq> []" and s: "suffix rest (drop 4 (c # cs))"
      using closing_rest_Some by blast+
    moreover have "suffix (drop 4 (c # cs)) (c # cs)"
      by (rule suffix_drop)
    moreover have "length rest \<le> length (drop 4 (c # cs))"
      using s by (rule suffix_length_le)
    then have "rest \<noteq> c # cs"
      by auto
    ultimately show ?thesis
      using True by (auto intro: suffix_order.trans)
  next
    case False
    with Cons.prems have "lazy_closing cs = Some rest"
      by (auto split: if_splits option.splits)
    then have "has_closing_line cs \<and> suffix rest cs \<and> rest \<noteq> cs"
      by (rule Cons.IH)
    moreover from this have "length rest \<le> length cs"
      by (auto dest: suffix_length_le)
    ultimately show ?thesis
      by (auto simp: suffix_Cons)
  qed
qed

lemma has_closing_line_suffix: "suffix u s \<Longrightarrow> has_closing_line u \<Longrightarrow> has_closing_line s"
  by (induction s) (auto simp: suffix_Cons)

lemma first_closing_Some: "first_closing rs = Some rest \<Longrightarrow> \<exists>r\<in>set rs. lazy_closing r = Some rest"
  by (induction rs) (auto split: option.splits)

text \<open>
  What the two notions say of the text itself: the whitespace run at the start of a text
  contains a line feed exactly when the text is a sequence of whitespace code points
  followed by a line feed, and a text has a closing line exactly when it contains a line
  feed, three dashes, a sequence of whitespace code points and a line feed.
\<close>

lemma skip_space_token: "t \<in> set py_whitespace \<Longrightarrow> skip_space (t @ r) = Some r"
  unfolding py_whitespace_def skip_space_def set_simps insert_iff empty_iff
  by (elim disjE FalseE; simp)

lemma skip_space_Some: "skip_space s = Some r \<Longrightarrow> \<exists>t\<in>set py_whitespace. s = t @ r"
  by (auto simp: skip_space_def find_Some_iff prefix_def split: option.splits)

lemma whitespace_newlines_run:
  "set ws \<subseteq> set py_whitespace \<Longrightarrow> whitespace_newlines (concat ws @ CHR 0x0A # r) \<noteq> []"
proof (induction ws)
  case Nil
  have "skip_space (CHR 0x0A # r) = Some r"
    using skip_space_token [of "[CHR 0x0A]" r] by (simp add: py_whitespace_def)
  then show ?case
    by (simp add: whitespace_newlines.simps [of "CHR 0x0A # r"])
next
  case (Cons t ws)
  then have "skip_space (t @ concat ws @ CHR 0x0A # r) = Some (concat ws @ CHR 0x0A # r)"
    by (simp add: skip_space_token)
  with Cons show ?case
    by (simp add: whitespace_newlines.simps [of "t @ concat ws @ CHR 0x0A # r"])
qed

lemma whitespace_newlines_nonempty:
  "whitespace_newlines s \<noteq> [] \<Longrightarrow>
   \<exists>ws r. s = concat ws @ CHR 0x0A # r \<and> set ws \<subseteq> set py_whitespace"
proof (induction s rule: whitespace_newlines.induct)
  case (1 s)
  from "1.prems" obtain r' where sk: "skip_space s = Some r'"
    by (cases "skip_space s") (auto simp: whitespace_newlines.simps [of s])
  then obtain t where t: "t \<in> set py_whitespace" and s: "s = t @ r'"
    using skip_space_Some by blast
  show ?case
  proof (cases "prefix [CHR 0x0A] s")
    case True
    then obtain r where "s = concat [] @ CHR 0x0A # r"
      by (auto simp: prefix_def)
    then show ?thesis
      by (metis empty_set empty_subsetI)
  next
    case False
    with "1.prems" sk have "whitespace_newlines r' \<noteq> []"
      by (simp add: whitespace_newlines.simps [of s])
    then obtain ws r where "r' = concat ws @ CHR 0x0A # r" and "set ws \<subseteq> set py_whitespace"
      using "1.IH" [OF sk] by blast
    with t s have "s = concat (t # ws) @ CHR 0x0A # r \<and> set (t # ws) \<subseteq> set py_whitespace"
      by simp
    then show ?thesis by blast
  qed
qed

lemma whitespace_newlines_iff:
  "whitespace_newlines s \<noteq> [] \<longleftrightarrow>
   (\<exists>ws r. s = concat ws @ CHR 0x0A # r \<and> set ws \<subseteq> set py_whitespace)"
  using whitespace_newlines_nonempty whitespace_newlines_run by blast


lemma has_closing_line_iff:
  "has_closing_line s \<longleftrightarrow>
   (\<exists>before ws r. s = before @ [CHR 0x0A, CHR ''-'', CHR ''-'', CHR ''-''] @ concat ws @ CHR 0x0A # r
       \<and> set ws \<subseteq> set py_whitespace)"
proof
  assume "has_closing_line s"
  then show "\<exists>before ws r. s = before @ [CHR 0x0A, CHR ''-'', CHR ''-'', CHR ''-''] @ concat ws @ CHR 0x0A # r
       \<and> set ws \<subseteq> set py_whitespace"
  proof (induction s)
    case Nil
    then show ?case by simp
  next
    case (Cons c cs)
    show ?case
    proof (cases "prefix [CHR 0x0A, CHR ''-'', CHR ''-'', CHR ''-''] (c # cs)
        \<and> whitespace_newlines (drop 4 (c # cs)) \<noteq> []")
      case True
      then obtain t where t: "c # cs = [CHR 0x0A, CHR ''-'', CHR ''-'', CHR ''-''] @ t"
        by (auto simp: prefix_def)
      with True have "whitespace_newlines t \<noteq> []"
        by simp
      then obtain ws r where "t = concat ws @ CHR 0x0A # r" and "set ws \<subseteq> set py_whitespace"
        using whitespace_newlines_nonempty by blast
      with t have "c # cs = [] @ [CHR 0x0A, CHR ''-'', CHR ''-'', CHR ''-''] @ concat ws @ CHR 0x0A # r
          \<and> set ws \<subseteq> set py_whitespace"
        by simp
      then show ?thesis by blast
    next
      case False
      with Cons.prems have "has_closing_line cs"
        by (auto split: if_splits)
      then obtain before ws r where "cs = before @ [CHR 0x0A, CHR ''-'', CHR ''-'', CHR ''-''] @ concat ws @ CHR 0x0A # r"
        and "set ws \<subseteq> set py_whitespace"
        using Cons.IH by blast
      then have "c # cs = (c # before) @ [CHR 0x0A, CHR ''-'', CHR ''-'', CHR ''-''] @ concat ws @ CHR 0x0A # r
          \<and> set ws \<subseteq> set py_whitespace"
        by simp
      then show ?thesis by blast
    qed
  qed
next
  assume "\<exists>before ws r. s = before @ [CHR 0x0A, CHR ''-'', CHR ''-'', CHR ''-''] @ concat ws @ CHR 0x0A # r
       \<and> set ws \<subseteq> set py_whitespace"
  then obtain before ws r where s: "s = before @ [CHR 0x0A, CHR ''-'', CHR ''-'', CHR ''-''] @ concat ws @ CHR 0x0A # r"
    and ws: "set ws \<subseteq> set py_whitespace"
    by blast
  have "has_closing_line ([CHR 0x0A, CHR ''-'', CHR ''-'', CHR ''-''] @ concat ws @ CHR 0x0A # r)"
    using whitespace_newlines_run [OF ws, of r] by simp
  moreover have "suffix ([CHR 0x0A, CHR ''-'', CHR ''-'', CHR ''-''] @ concat ws @ CHR 0x0A # r) s"
    unfolding s by (rule suffixI) simp
  ultimately show "has_closing_line s"
    using has_closing_line_suffix by blast
qed

text \<open>
  Claim C10.  What \<open>remove_front_matter\<close> returns is always the end of the document, so it
  removes a leading block or nothing; and it returns the document as it is, the opening
  dashes included, unless the document begins with a line of three dashes and also
  contains a closing line of three dashes followed by a line feed.  In particular nothing
  is removed from a document that does not start with three dashes, nor from one that has
  the opening line and no closing line.
\<close>

theorem front_matter_needs_both_delimiters:
  "suffix (remove_front_matter content) content \<and>
   (\<not> (opening_line content \<and> has_closing_line content) \<longrightarrow> remove_front_matter content = content)"
proof (cases "prefix ''---'' content \<and> first_closing (rev (whitespace_newlines (drop 3 content))) \<noteq> None")
  case False
  then show ?thesis
    by (auto simp: remove_front_matter_def)
next
  case True
  then obtain rest where f: "first_closing (rev (whitespace_newlines (drop 3 content))) = Some rest"
    by auto
  then obtain r where r: "r \<in> set (whitespace_newlines (drop 3 content))" and l: "lazy_closing r = Some rest"
    using first_closing_Some by fastforce
  from r have sr: "suffix r content"
    using whitespace_newlines_suffix suffix_drop suffix_order.trans by blast
  from l have "has_closing_line r" and "suffix rest r"
    using lazy_closing_Some by blast+
  with sr have "has_closing_line content" and "suffix rest content"
    using has_closing_line_suffix suffix_order.trans by blast+
  moreover from r have "whitespace_newlines (drop 3 content) \<noteq> []"
    by auto
  ultimately show ?thesis
    using True f by (simp add: remove_front_matter_def opening_line_def)
qed


theorem front_matter_needs_both_delimiters_witness:
  "opening_line ''---\<newline>title: x\<newline>body\<newline>--- x\<newline>''
   \<and> \<not> has_closing_line ''---\<newline>title: x\<newline>body\<newline>--- x\<newline>''
   \<and> remove_front_matter ''---\<newline>title: x\<newline>body\<newline>--- x\<newline>'' = ''---\<newline>title: x\<newline>body\<newline>--- x\<newline>''"
proof -
  have 1: "opening_line ''---\<newline>title: x\<newline>body\<newline>--- x\<newline>''"
    by code_simp
  have 2: "\<not> has_closing_line ''---\<newline>title: x\<newline>body\<newline>--- x\<newline>''"
    by code_simp
  show ?thesis
    using front_matter_needs_both_delimiters [of "''---\<newline>title: x\<newline>body\<newline>--- x\<newline>''"] 1 2
    by simp
qed

subsection \<open>Path Normalizer\<close>

lemma py_replace_char: "py_replace [x] [y] s = map (\<lambda>c. if c = x then y else c) s"
  by (induction s) auto

lemma py_replace_dashes: "py_replace ''_'' ''-'' (py_replace ''/'' ''-'' s) = dashes s"
  by (simp add: py_replace_char dashes_def)

lemma set_py_replace_empty: "set (py_replace old [] s) \<subseteq> set s"
proof (induction old "[] :: string" s rule: py_replace.induct)
  case (1 old)
  then show ?case by simp
next
  case (2 old c cs)
  have "set (drop (length old) (c # cs)) \<subseteq> set (c # cs)"
    by (rule set_drop_subset)
  with 2 show ?case
    by (auto split: if_splits)
qed

lemma py_replace_absent: "\<not> sublist old s \<Longrightarrow> py_replace old new s = s"
  by (induction s) (auto simp: sublist_Cons_right)

lemma py_replace_head:
  "old \<noteq> [] \<Longrightarrow> \<not> prefix [hd old] s \<Longrightarrow> \<not> prefix [hd old] (py_replace old [] s)"
  by (cases s; cases old) auto

lemma strip_chars_id: "\<not> prefix [x] s \<Longrightarrow> \<not> suffix [x] s \<Longrightarrow> strip_chars x s = s"
proof -
  assume p: "\<not> prefix [x] s" and q: "\<not> suffix [x] s"
  from p have 1: "dropWhile (\<lambda>c. c = x) s = s"
    by (cases s) auto
  from q have "\<not> prefix [x] (rev s)"
    by (metis rev.simps(1,2) append_Nil suffix_to_prefix)
  then have "dropWhile (\<lambda>c. c = x) (rev s) = rev s"
    by (cases "rev s") auto
  with 1 show ?thesis
    by (simp add: strip_chars_def)
qed

lemma strip_chars_no_leading: "\<not> prefix [x] (strip_chars x s)"
proof
  assume "prefix [x] (strip_chars x s)"
  then obtain r where r: "strip_chars x s = x # r"
    by (auto simp: prefix_def)
  let ?d = "dropWhile (\<lambda>c. c = x) s"
  have "rev (dropWhile (\<lambda>c. c = x) (rev ?d)) = x # r"
    using r by (simp add: strip_chars_def)
  then have "dropWhile (\<lambda>c. c = x) (rev ?d) = rev r @ [x]"
    by (metis rev.simps(2) rev_rev_ident)
  moreover have "suffix (dropWhile (\<lambda>c. c = x) (rev ?d)) (rev ?d)"
    by (rule suffix_dropWhile)
  ultimately have "suffix (rev r @ [x]) (rev ?d)" by simp
  then have "prefix (x # r) ?d"
    by (metis rev.simps(2) rev_rev_ident suffix_to_prefix)
  then obtain zs where "?d = x # r @ zs"
    by (auto simp: prefix_def)
  then have "?d \<noteq> []" and "hd ?d = x"
    by simp_all
  then show False
    using hd_dropWhile [of "\<lambda>c. c = x" s] by blast
qed

lemma wiki_page_chars:
  "CHR ''/'' \<notin> set (wiki_page p) \<and> CHR ''_'' \<notin> set (wiki_page p) \<and> \<not> prefix ''-'' (wiki_page p)"
proof -
  let ?d = "dashes (py_replace ''.md'' [] p)"
  let ?s = "strip_chars CHR ''-'' (sub_leading_dots_slashes ?d)"
  have w: "wiki_page p = py_replace ''-index'' [] ?s"
    by (simp add: wiki_page_def py_replace_dashes)
  have "set ?s \<subseteq> set ?d"
    unfolding strip_chars_def sub_leading_dots_slashes_def
    by (metis (no_types, lifting) set_dropWhileD set_rev subsetI)
  moreover have "CHR ''/'' \<notin> set ?d" "CHR ''_'' \<notin> set ?d"
    by (auto simp: dashes_def)
  ultimately have "CHR ''/'' \<notin> set ?s" "CHR ''_'' \<notin> set ?s"
    by auto
  then have "CHR ''/'' \<notin> set (wiki_page p)" "CHR ''_'' \<notin> set (wiki_page p)"
    using set_py_replace_empty [of "''-index''" ?s] w by auto
  moreover have "\<not> prefix ''-'' (wiki_page p)"
    using py_replace_head [of "''-index''" ?s] strip_chars_no_leading [of "CHR ''-''"] w by simp
  ultimately show ?thesis by simp
qed

lemma wiki_page_fixed:
  assumes "\<not> sublist ''.md'' q" "\<not> sublist ''-index'' q" "CHR ''/'' \<notin> set q" "CHR ''_'' \<notin> set q"
    "\<not> prefix ''.'' q" "\<not> prefix ''-'' q" "\<not> suffix ''-'' q"
  shows "wiki_page q = q"
proof -
  have 1: "py_replace ''.md'' [] q = q"
    using assms(1) by (rule py_replace_absent)
  have 2: "dashes q = q"
    using assms(3,4) unfolding dashes_def by (induction q) auto
  have 3: "sub_leading_dots_slashes q = q"
    using assms(3,5) by (cases q) (auto simp: sub_leading_dots_slashes_def)
  have 4: "strip_chars CHR ''-'' q = q"
    using assms(6,7) by (simp add: strip_chars_id)
  have 5: "py_replace ''-index'' [] q = q"
    using assms(2) by (rule py_replace_absent)
  show ?thesis
    unfolding wiki_page_def py_replace_dashes by (simp only: 1 2 3 4 5)
qed

text \<open>
  Claim C2, as the code has it.  The normalizer is not idempotent on every input: the
  removal of \<open>-index\<close> comes after the dashes are stripped and can leave a dash at the end
  (\<open>a/_index.md\<close> gives \<open>a-\<close>, which gives \<open>a\<close>), and a removal can bring the two halves of a
  new \<open>.md\<close> or \<open>-index\<close> together.
\<close>

theorem normalizer_not_idempotent:
  "wiki_page ''a/_index.md'' = ''a-'' \<and> wiki_page (wiki_page ''a/_index.md'') = ''a''"
  by (simp add: wiki_page_def strip_chars_def sub_leading_dots_slashes_def)

text \<open>
  Claim C2, amended.  Normalizing a second time changes nothing whenever the result of
  the first time contains neither \<open>.md\<close> nor \<open>-index\<close>, does not begin with a dot and does
  not end with a dash.
\<close>

theorem normalizer_idempotent_on_clean_results:
  assumes "\<not> sublist ''.md'' (wiki_page p)" and "\<not> sublist ''-index'' (wiki_page p)"
    and "\<not> prefix ''.'' (wiki_page p)" and "\<not> suffix ''-'' (wiki_page p)"
  shows "wiki_page (wiki_page p) = wiki_page p"
  using assms wiki_page_chars [of p] by (intro wiki_page_fixed) simp_all


theorem normalizer_idempotent_on_clean_results_witness:
  "\<not> sublist ''.md'' (wiki_page ''../other/page.md'') \<and> \<not> sublist ''-index'' (wiki_page ''../other/page.md'')
   \<and> \<not> prefix ''.'' (wiki_page ''../other/page.md'') \<and> \<not> suffix ''-'' (wiki_page ''../other/page.md'')
   \<and> wiki_page ''../other/page.md'' = ''other-page''
   \<and> wiki_page (wiki_page ''../other/page.md'') = wiki_page ''../other/page.md''"
proof -
  have v: "wiki_page ''../other/page.md'' = ''other-page''"
    by (simp add: wiki_page_def strip_chars_def sub_leading_dots_slashes_def)
  have 1: "\<not> sublist ''.md'' (wiki_page ''../other/page.md'')"
    unfolding v by (simp add: sublist_Cons_right)
  have 2: "\<not> sublist ''-index'' (wiki_page ''../other/page.md'')"
    unfolding v by (simp add: sublist_Cons_right)
  have 3: "\<not> prefix ''.'' (wiki_page ''../other/page.md'')"
    unfolding v by simp
  have 4: "\<not> suffix ''-'' (wiki_page ''../other/page.md'')"
    unfolding v by (simp add: suffix_to_prefix)
  show ?thesis
    using normalizer_idempotent_on_clean_results [OF 1 2 3 4] 1 2 3 4 v by simp
qed

lemma dropWhile_dots_dashes:
  assumes "\<not> prefix ''.'' (dropWhile (\<lambda>c. c = CHR ''-'') (dropWhile (\<lambda>c. c = CHR ''.'') d))"
  shows "dropWhile (\<lambda>c. c = CHR ''.'' \<or> c = CHR ''-'') d
           = dropWhile (\<lambda>c. c = CHR ''-'') (dropWhile (\<lambda>c. c = CHR ''.'') d)"
proof -
  let ?e = "dropWhile (\<lambda>c. c = CHR ''.'') d"
  let ?f = "dropWhile (\<lambda>c. c = CHR ''-'') ?e"
  have d: "d = takeWhile (\<lambda>c. c = CHR ''.'') d @ takeWhile (\<lambda>c. c = CHR ''-'') ?e @ ?f"
    by simp
  have f: "dropWhile (\<lambda>c. c = CHR ''.'' \<or> c = CHR ''-'') ?f = ?f"
  proof (cases ?f)
    case Nil
    show ?thesis by (simp only: Nil dropWhile.simps)
  next
    case (Cons a as)
    then have "a \<noteq> CHR ''-''"
      using hd_dropWhile [of "\<lambda>c. c = CHR ''-''" ?e] by auto
    moreover have "a \<noteq> CHR ''.''"
      using assms Cons by auto
    ultimately show ?thesis
      by (simp only: Cons dropWhile.simps) simp
  qed
  let ?P = "\<lambda>c. c = CHR ''.'' \<or> c = CHR ''-''"
  have "dropWhile ?P (takeWhile (\<lambda>c. c = CHR ''-'') ?e @ ?f) = dropWhile ?P ?f"
    by (rule dropWhile_append2) (auto dest: set_takeWhileD)
  moreover have "dropWhile ?P (takeWhile (\<lambda>c. c = CHR ''.'') d @ takeWhile (\<lambda>c. c = CHR ''-'') ?e @ ?f)
      = dropWhile ?P (takeWhile (\<lambda>c. c = CHR ''-'') ?e @ ?f)"
    by (rule dropWhile_append2) (auto dest: set_takeWhileD)
  ultimately have "dropWhile ?P (takeWhile (\<lambda>c. c = CHR ''.'') d @ takeWhile (\<lambda>c. c = CHR ''-'') ?e @ ?f) = ?f"
    using f by simp
  with d show ?thesis
    by metis
qed


text \<open>
  Claim C3, as the code has it.  An occurrence of \<open>.md\<close> or of \<open>-index\<close> that is not at the
  end is removed as well: \<open>str.replace\<close> removes every occurrence.
\<close>

theorem normalizer_removes_inner_occurrences: "wiki_page ''a.md/b-index/c.md'' = ''a-b-c''"
  by (simp add: wiki_page_def strip_chars_def sub_leading_dots_slashes_def)

text \<open>
  Claim C3, amended.  The normalizer removes every occurrence of \<open>.md\<close> (one pass from the
  left), turns every path separator and underscore into a dash, strips the leading run of
  dots and dashes and the trailing dashes, and then removes every occurrence of \<open>-index\<close>
  (one pass from the left).  This is stated for the paths where, after the leading dots
  and the dashes that follow them, no further dot comes first; on the other paths
  (\<open>../../x.md\<close>) nothing is stated.
\<close>

theorem normalizer_stages:
  assumes "\<not> prefix ''.''
             (dropWhile (\<lambda>c. c = CHR ''-'') (dropWhile (\<lambda>c. c = CHR ''.'') (dashes (py_replace ''.md'' [] p))))"
  shows "wiki_page p =
           py_replace ''-index'' []
             (rev (dropWhile (\<lambda>c. c = CHR ''-'')
               (rev (dropWhile (\<lambda>c. c = CHR ''.'' \<or> c = CHR ''-'') (dashes (py_replace ''.md'' [] p))))))"
proof -
  let ?d = "dashes (py_replace ''.md'' [] p)"
  have "CHR ''/'' \<notin> set ?d"
    by (auto simp: dashes_def)
  then have "sub_leading_dots_slashes ?d = dropWhile (\<lambda>c. c = CHR ''.'') ?d"
    unfolding sub_leading_dots_slashes_def by (intro dropWhile_cong) auto
  then have "wiki_page p =
      py_replace ''-index'' []
        (rev (dropWhile (\<lambda>c. c = CHR ''-'')
          (rev (dropWhile (\<lambda>c. c = CHR ''-'') (dropWhile (\<lambda>c. c = CHR ''.'') ?d)))))"
    by (simp add: wiki_page_def py_replace_dashes strip_chars_def)
  then show ?thesis
    by (simp only: dropWhile_dots_dashes [OF assms])
qed

theorem normalizer_stages_witness:
  "\<not> prefix ''.''
      (dropWhile (\<lambda>c. c = CHR ''-'') (dropWhile (\<lambda>c. c = CHR ''.'')
         (dashes (py_replace ''.md'' [] ''../a.md/b_c-index/d.md''))))
   \<and> wiki_page ''../a.md/b_c-index/d.md'' = ''a-b-c-d''"
proof -
  have h: "\<not> prefix ''.''
      (dropWhile (\<lambda>c. c = CHR ''-'') (dropWhile (\<lambda>c. c = CHR ''.'')
         (dashes (py_replace ''.md'' [] ''../a.md/b_c-index/d.md''))))"
    by (simp add: dashes_def)
  show ?thesis
    using normalizer_stages [OF h] by (simp add: dashes_def)
qed

lemma nav_wiki_name_plain: "plain_path p \<Longrightarrow> nav_wiki_name p = wiki_page p"
proof -
  assume a: "plain_path p"
  let ?d = "dashes (py_replace ''.md'' [] p)"
  have "CHR ''/'' \<notin> set ?d"
    by (auto simp: dashes_def)
  with a have "sub_leading_dots_slashes ?d = ?d"
    by (cases ?d) (auto simp: sub_leading_dots_slashes_def plain_path_def)
  moreover from a have "strip_chars CHR ''-'' ?d = ?d"
    by (simp add: strip_chars_id plain_path_def)
  ultimately show ?thesis
    by (simp add: nav_wiki_name_def wiki_page_def py_replace_dashes)
qed


subsection \<open>Navigation Walker\<close>

lemma walked_Nil: "walked env [] w [] w"
  by (simp add: walked_def)

lemma walked_append:
  "walked env ps1 w pages1 w1 \<Longrightarrow> walked env ps2 w1 pages2 w2 \<Longrightarrow>
   walked env (ps1 @ ps2) w (pages1 @ pages2) w2"
  by (auto simp: walked_def)

lemma create_wiki_page_written:
  assumes "create_wiki_page env title (truediv (DOCS_DIR env) p) (nav_wiki_name p) w = Inr w'"
  shows "walked env [p] w [(t, nav_wiki_name p)] w'"
proof (cases "files env (truediv (DOCS_DIR env) p) = None")
  case True
  with assms show ?thesis
    by (auto simp: create_wiki_page_def walked_def)
next
  case False
  with assms show ?thesis
    by (auto simp: create_wiki_page_def process_markdown_file_def walked_def
        split: sum.splits prod.splits)
qed

lemma parse_walked:
  "(\<forall>pages w'. parse_nav_item env item section_title w = Inr (pages, w')
       \<longrightarrow> walked env (item_paths item) w pages w')"
  "(\<forall>pages w'. parse_items env kvs section_title w = Inr (pages, w')
       \<longrightarrow> walked env (items_paths kvs) w pages w')"
  "(\<forall>pages w'. parse_sub_items env sub_items section_title w = Inr (pages, w')
       \<longrightarrow> walked env (sub_items_paths sub_items) w pages w')"
proof (induction env item section_title w and env kvs section_title w and env sub_items section_title w
    rule: parse_nav_item_parse_items_parse_sub_items.induct)
  case (1 env kvs section_title w)
  then show ?case by simp
next
  case (2 env item section_title w)
  then show ?case
    by (auto split: sum.splits intro: create_wiki_page_written)
next
  case (3 env xs section_title w)
  then show ?case by (simp add: walked_Nil)
next
  case (4 env section_title w)
  then show ?case by (simp add: walked_Nil)
next
  case (5 env section_title w)
  then show ?case by (simp add: walked_Nil)
next
  case (6 env key v kvs section_title w)
  show ?case
  proof (intro allI impI)
    fix pages w'
    assume a: "parse_items env ((key, Str v) # kvs) section_title w = Inr (pages, w')"
    let ?t = "if section_title \<noteq> [] then section_title @ '' '' @ key else key"
    from a obtain w1 rest where c: "create_wiki_page env ?t (truediv (DOCS_DIR env) v) (nav_wiki_name v) w = Inr w1"
      and r: "parse_items env kvs section_title w1 = Inr (rest, w')"
      and p: "pages = (?t, nav_wiki_name v) # rest"
      by (auto simp: Let_def split: sum.splits prod.splits)
    have "walked env [v] w [(?t, nav_wiki_name v)] w1"
      using c by (rule create_wiki_page_written)
    moreover have "walked env (items_paths kvs) w1 rest w'"
      using "6.IH" [OF refl c] r by blast
    ultimately show "walked env (items_paths ((key, Str v) # kvs)) w pages w'"
      using walked_append [of env "[v]" w "[(?t, nav_wiki_name v)]" w1 "items_paths kvs" rest w'] p
      by simp
  qed
next
  case (7 env key sub_items kvs section_title w)
  show ?case
  proof (intro allI impI)
    fix pages w'
    assume a: "parse_items env ((key, List sub_items) # kvs) section_title w = Inr (pages, w')"
    then obtain sub_pages w1 rest where c: "parse_sub_items env sub_items key w = Inr (sub_pages, w1)"
      and r: "parse_items env kvs section_title w1 = Inr (rest, w')"
      and p: "pages = sub_pages @ rest"
      by (auto split: sum.splits prod.splits)
    have "walked env (sub_items_paths sub_items) w sub_pages w1"
      using "7.IH"(1) c by blast
    moreover have "walked env (items_paths kvs) w1 rest w'"
      using "7.IH"(2) [OF c refl] r by blast
    ultimately show "walked env (items_paths ((key, List sub_items) # kvs)) w pages w'"
      using p by (simp add: walked_append)
  qed
next
  case (8 env key d kvs section_title w)
  then show ?case by simp
next
  case (9 env key kvs section_title w)
  then show ?case by simp
next
  case (10 env key w)
  then show ?case by (simp add: walked_Nil)
next
  case (11 env sub_item sub_items key w)
  show ?case
  proof (intro allI impI)
    fix pages w'
    assume a: "parse_sub_items env (sub_item # sub_items) key w = Inr (pages, w')"
    then obtain sub_pages w1 rest where c: "parse_nav_item env sub_item key w = Inr (sub_pages, w1)"
      and r: "parse_sub_items env sub_items key w1 = Inr (rest, w')"
      and p: "pages = sub_pages @ rest"
      by (auto split: sum.splits prod.splits)
    have "walked env (item_paths sub_item) w sub_pages w1"
      using "11.IH"(1) c by blast
    moreover have "walked env (sub_items_paths sub_items) w1 rest w'"
      using "11.IH"(2) [OF c refl] r by blast
    ultimately show "walked env (sub_items_paths (sub_item # sub_items)) w pages w'"
      using p by (simp add: walked_append)
  qed
qed


lemma nav_pages_sub_items: "nav_pages env items w = parse_sub_items env items [] w"
  by (induction items arbitrary: w) (auto split: sum.splits)

text \<open>
  What the walk over a navigation does, for every navigation and without a condition on
  its paths: the pages carry, in order, the names \<open>nav_wiki_name\<close> gives the paths, and
  one file per existing document is written under that name.  By \<open>nav_wiki_name_plain\<close>
  the name of a path is what the normalizer of the Link Rewriter gives it whenever the
  path is plain.
\<close>

lemma walker_pages:
  assumes "nav_pages env items w = Inr (pages, w')"
  shows "map snd pages = map nav_wiki_name (sub_items_paths items)
    \<and> (\<exists>new. written w' = written w @ new \<and>
          map fst new =
            map (\<lambda>p. nav_wiki_name p @ ''.md'')
              (filter (\<lambda>p. files env (truediv (DOCS_DIR env) p) \<noteq> None) (sub_items_paths items)))"
proof -
  have "walked env (sub_items_paths items) w pages w'"
    using assms parse_walked(3) [of env items "[]" w] by (simp add: nav_pages_sub_items)
  then show ?thesis
    unfolding walked_def by blast
qed

lemma walker_page_of_plain_path:
  assumes "nav_pages env items w = Inr (pages, w')"
    and "i < length (sub_items_paths items)" and "plain_path (sub_items_paths items ! i)"
  shows "snd (pages ! i) = wiki_page (sub_items_paths items ! i)"
proof -
  have m: "map snd pages = map nav_wiki_name (sub_items_paths items)"
    using walker_pages [OF assms(1)] by blast
  then have "length pages = length (sub_items_paths items)"
    using length_map by metis
  with assms(2) have "snd (pages ! i) = map snd pages ! i"
    by simp
  also have "\<dots> = nav_wiki_name (sub_items_paths items ! i)"
    using m assms(2) by simp
  finally show ?thesis
    using assms(3) by (simp add: nav_wiki_name_plain)
qed

text \<open>
  Claim C1.  The claim is what the script means to do (its pages are to be linked
  properly), and the code misses it: the three places that compute a page name differ.
  The fallback of \<open>main\<close> (line 352) leaves out the removal of \<open>-index\<close> that
  \<open>parse_nav_item\<close> (line 232) and \<open>replace_link\<close> (line 96) apply: without \<open>mkdocs.yml\<close>
  the document \<open>guide/index.md\<close> is written as \<open>guide-index.md\<close>, while the link to it in
  \<open>page.md\<close> becomes \<open>guide\<close>, which names no file written.  And \<open>parse_nav_item\<close>
  leaves out the stripping of \<open>replace_link\<close> (lines 92 to 94): the navigation path
  \<open>_drafts/page.md\<close> is written as \<open>-drafts-page.md\<close>, while the link to it becomes
  \<open>drafts-page\<close>.
\<close>

theorem written_page_not_named_by_rewritten_link:
  "main index_link_environment =
     Inr ([(''page'', ''page''), (''guide-index'', ''guide-index'')],
          \<lparr>written =
             [(''Home.md'', ''# Documentation\<newline>\<newline>Welcome to the wiki!\<newline>''),
              (''page.md'', ''See [guide](guide).''),
              (''guide-index.md'', ''Guide''),
              (''_Sidebar.md'',
               sidebar_heading ''Documentation''
                 @ ''- [page](page)\<newline>- [guide-index](guide-index)\<newline>'')],
           printed = [mkdocs_yml_not_found]\<rparr>)
   \<and> fallback_name [''guide'', ''index.md''] = ''guide-index''
   \<and> nav_wiki_name ''guide/index.md'' = ''guide''
   \<and> wiki_page ''guide/index.md'' = ''guide''
   \<and> main drafts_link_environment =
     Inr ([(''Page'', ''page''), (''Drafts'', ''-drafts-page'')],
          \<lparr>written =
             [(''Home.md'', ''# Documentation\<newline>\<newline>Welcome to the wiki!\<newline>''),
              (''page.md'', ''See [d](drafts-page).''),
              (''-drafts-page.md'', ''Draft''),
              (''_Sidebar.md'',
               sidebar_heading ''Documentation''
                 @ ''- [Page](page)\<newline>- [Drafts](-drafts-page)\<newline>'')],
           printed = []\<rparr>)
   \<and> nav_wiki_name ''_drafts/page.md'' = ''-drafts-page''
   \<and> wiki_page ''_drafts/page.md'' = ''drafts-page''"
  by code_simp

subsection \<open>Link Rewriter\<close>

lemma match_link_text:
  assumes "match_link s = Some (link_text, link_path, rest)"
  shows "s = ''['' @ link_text @ '']('' @ link_path @ '')'' @ rest"
proof -
  from assms obtain s1 where s: "s = CHR ''['' # s1"
    by (auto simp: match_link_def split: list.splits if_splits)
  from assms s obtain d b s3 where d1: "dropWhile (\<lambda>x. x \<noteq> CHR '']'') s1 = d # b # s3"
    by (auto simp: match_link_def split: list.splits if_splits)
  from assms s d1 obtain e where b: "b = CHR ''(''" and d2: "dropWhile (\<lambda>x. x \<noteq> CHR '')'') s3 = e # rest"
    and l: "link_text = takeWhile (\<lambda>x. x \<noteq> CHR '']'') s1"
    and t: "link_path = takeWhile (\<lambda>x. x \<noteq> CHR '')'') s3"
    by (auto simp: match_link_def split: list.splits if_splits)
  have "d = CHR '']''"
    using hd_dropWhile [of "\<lambda>x. x \<noteq> CHR '']''" s1] d1 by auto
  moreover have "e = CHR '')''"
    using hd_dropWhile [of "\<lambda>x. x \<noteq> CHR '')''" s3] d2 by auto
  moreover have "s1 = link_text @ d # b # s3"
    using takeWhile_dropWhile_id [of "\<lambda>x. x \<noteq> CHR '']''" s1] l d1 by simp
  moreover have "s3 = link_path @ e # rest"
    using takeWhile_dropWhile_id [of "\<lambda>x. x \<noteq> CHR '')''" s3] t d2 by simp
  ultimately show ?thesis
    using s b by simp
qed

lemma finditer_links_text: "concat (map group0 (finditer_links prev s)) = s"
proof (induction prev s rule: finditer_links.induct)
  case (1 prev)
  then show ?case by simp
next
  case (2 prev c cs)
  show ?case
  proof (cases "match_link (c # cs)")
    case None
    with 2 show ?thesis by simp
  next
    case (Some m)
    obtain link_text link_path rest where m: "m = (link_text, link_path, rest)"
      by (cases m) auto
    have "concat (map group0 (finditer_links (Some CHR '')'') rest)) = rest"
      using "2.IH"(2) Some m by simp
    moreover have "c # cs = ''['' @ link_text @ '']('' @ link_path @ '')'' @ rest"
      using Some m by (intro match_link_text) simp
    ultimately show ?thesis
      using Some m by simp
  qed
qed

lemma finditer_links_bang:
  "finditer_links prev s = xs @ Link bang link_text link_path # ys \<Longrightarrow>
   bang = ((if concat (map group0 xs) = [] then prev else Some (last (concat (map group0 xs))))
            = Some CHR ''!'')"
proof (induction prev s arbitrary: xs rule: finditer_links.induct)
  case (1 prev)
  then show ?case by simp
next
  case (2 prev c cs)
  show ?case
  proof (cases "match_link (c # cs)")
    case None
    with "2.prems" obtain xs' where xs: "xs = Other c # xs'"
      and r: "finditer_links (Some c) cs = xs' @ Link bang link_text link_path # ys"
      by (cases xs) auto
    from "2.IH"(1) [OF None r] show ?thesis
      by (simp add: xs)
  next
    case (Some m)
    obtain l t rest where m: "m = (l, t, rest)"
      by (cases m) auto
    have M: "match_link (c # cs) = Some (l, t, rest)"
      using Some m by simp
    show ?thesis
    proof (cases xs)
      case Nil
      with "2.prems" M show ?thesis by simp
    next
      case (Cons x xs')
      with "2.prems" M have x: "x = Link (prev = Some CHR ''!'') l t"
        and r: "finditer_links (Some CHR '')'') rest = xs' @ Link bang link_text link_path # ys"
        by auto
      have "bang = ((if concat (map group0 xs') = [] then Some CHR '')''
                     else Some (last (concat (map group0 xs')))) = Some CHR ''!'')"
        using "2.IH"(2) [OF M refl refl r] .
      then show ?thesis
        by (simp add: Cons x)
    qed
  qed
qed

text \<open>
  Claim C5, as the code has it.  Not every span of the text that has the form of a link
  and stands after \<open>!\<close> is left as it is.  In \<open>[![logo](img/logo_1.png)](https://example.com)\<close>
  the pattern matches from the first bracket, with the label \<open>![logo\<close> and the target
  \<open>img/logo_1.png\<close>; this match is not preceded by \<open>!\<close> and its target is not external, so
  the path of the image is rewritten.  A label may contain an opening bracket: the
  pattern is kept that simple on purpose.
\<close>

theorem link_rewriter_rewrites_image_in_label:
  "convert_mkdocs_to_wiki_link ''[![logo](img/logo_1.png)](https://example.com)''
     = ''[![logo](img-logo-1.png)](https://example.com)''"
  by code_simp

text \<open>
  Claim C5, amended.  Let the scan of the Link Rewriter locate, in any document text, a link
  span \<open>[label](target)\<close> after the pieces \<open>xs\<close> and before the pieces \<open>ys\<close>.  The span stands
  in the text at that place, and its flag says whether the character before it is \<open>!\<close>.
  If the span is preceded by \<open>!\<close>, or its target begins with \<open>http://\<close>, \<open>https://\<close> or \<open>#\<close>,
  it stands unchanged in the output, between what the rewriter makes of the text before
  it and of the text after it.  The spans are the matches of the pattern that the scan
  finds from the left, without overlap; text inside the label or the target of a match
  is part of that match, and of it nothing is stated.
\<close>

theorem link_rewriter_skips_external_and_images:
  assumes "finditer_links None text = xs @ Link bang link_text link_path # ys"
    and "bang \<or> startswith [''http://'', ''https://'', ''#''] link_path"
  shows "text = concat (map group0 xs) @ ''['' @ link_text @ '']('' @ link_path @ '')''
                  @ concat (map group0 ys)
    \<and> bang = (concat (map group0 xs) \<noteq> [] \<and> last (concat (map group0 xs)) = CHR ''!'')
    \<and> convert_mkdocs_to_wiki_link text =
        concat (map replace_link xs) @ ''['' @ link_text @ '']('' @ link_path @ '')''
          @ concat (map replace_link ys)"
proof -
  have "text = concat (map group0 (xs @ Link bang link_text link_path # ys))"
    using finditer_links_text [of None "text"] assms(1) by simp
  then have 1: "text = concat (map group0 xs) @ ''['' @ link_text @ '']('' @ link_path @ '')''
                  @ concat (map group0 ys)"
    by simp
  have 2: "bang = (concat (map group0 xs) \<noteq> [] \<and> last (concat (map group0 xs)) = CHR ''!'')"
    using finditer_links_bang [OF assms(1)] by (auto split: if_splits)
  have "replace_link (Link bang link_text link_path) = ''['' @ link_text @ '']('' @ link_path @ '')''"
    using assms(2) by auto
  then have 3: "convert_mkdocs_to_wiki_link text =
        concat (map replace_link xs) @ ''['' @ link_text @ '']('' @ link_path @ '')''
          @ concat (map replace_link ys)"
    by (simp add: convert_mkdocs_to_wiki_link_def assms(1))
  from 1 2 3 show ?thesis by blast
qed


theorem link_rewriter_skips_external_and_images_witness:
  "finditer_links None ''[a](b_c) ![i](x_y.png)''
     = [Link False ''a'' ''b_c'', Other CHR '' '', Other CHR ''!''] @ Link True ''i'' ''x_y.png'' # []
   \<and> convert_mkdocs_to_wiki_link ''[a](b_c) ![i](x_y.png)'' = ''[a](b-c) ![i](x_y.png)''
   \<and> finditer_links None ''[e](#a_b)'' = [] @ Link False ''e'' ''#a_b'' # []
   \<and> startswith [''http://'', ''https://'', ''#''] ''#a_b''
   \<and> convert_mkdocs_to_wiki_link ''[e](#a_b)'' = ''[e](#a_b)''"
proof -
  have 1: "finditer_links None ''[a](b_c) ![i](x_y.png)''
     = [Link False ''a'' ''b_c'', Other CHR '' '', Other CHR ''!''] @ Link True ''i'' ''x_y.png'' # []"
    by (simp add: match_link_def)
  have 2: "finditer_links None ''[e](#a_b)'' = [] @ Link False ''e'' ''#a_b'' # []"
    by (simp add: match_link_def)
  have 3: "startswith [''http://'', ''https://'', ''#''] ''#a_b''"
    by (simp add: startswith_def)
  have 4: "wiki_page ''b_c'' = ''b-c''"
    by (simp add: wiki_page_def strip_chars_def sub_leading_dots_slashes_def)
  show ?thesis
    using link_rewriter_skips_external_and_images [OF 1] link_rewriter_skips_external_and_images [OF 2] 1 2 3 4
    by (simp add: startswith_def)
qed

subsection \<open>Home page\<close>




subsection \<open>Fallback enumeration\<close>

lemma fallback_pages_titled:
  "fallback_pages env rels w = Inr (pages, w') \<Longrightarrow>
   pages = map (\<lambda>rel. (fallback_name rel, fallback_name rel)) (filter (is_file env) rels)"
proof (induction rels arbitrary: w pages)
  case Nil
  then show ?case by simp
next
  case (Cons rel rels)
  show ?case
  proof (cases "is_file env rel")
    case False
    then have "fallback_pages env (rel # rels) w = fallback_pages env rels w"
      by (auto simp: is_file_def Let_def split: option.splits node.splits)
    with Cons False show ?thesis by simp
  next
    case True
    then obtain content where f: "files env \<lparr>root = root (DOCS_DIR env), parts = parts (DOCS_DIR env) @ rel\<rparr> = Some (File content)"
      by (auto simp: is_file_def split: option.splits node.splits)
    from Cons.prems obtain w1 rest where "fallback_pages env rels w1 = Inr (rest, w')"
      and "pages = (fallback_name rel, fallback_name rel) # rest"
      by (auto simp: f Let_def fallback_name_def split: sum.splits prod.splits)
    with Cons.IH True show ?thesis by simp
  qed
qed

lemma main_example:
  "main example_environment =
     Inr ([(''index'', ''index''), (''guide-page'', ''guide-page'')],
          \<lparr>written =
             [(''Home.md'', ''[Guide](guide-page) ![x](assets/pic_1.png)''),
              (''index.md'',
               ''[Guide](guide-page) ![x](https://raw.githubusercontent.com/alice/docs/main/docs/assets/pic_1.png)''),
              (''guide-page.md'',
               ''See [home](index) and ![x](https://raw.githubusercontent.com/alice/docs/main/docs/assets/pic.png).''),
              (''_Sidebar.md'',
               sidebar_heading ''Documentation''
                 @ ''- [index](index)\<newline>- [guide-page](guide-page)\<newline>'')],
           printed = [mkdocs_yml_not_found]\<rparr>)"
  by code_simp

text \<open>
  Claim C4, as the code has it.  Without \<open>mkdocs.yml\<close> the pages of the fallback are
  recorded with their identifier as title (line 354), not untitled, and each of them has
  its line in the sidebar: here \<open>index\<close> and \<open>guide-page\<close>.
\<close>

theorem fallback_pages_listed_in_sidebar:
  "mkdocs_yml example_environment = None
   \<and> main example_environment =
     Inr ([(''index'', ''index''), (''guide-page'', ''guide-page'')],
          \<lparr>written =
             [(''Home.md'', ''[Guide](guide-page) ![x](assets/pic_1.png)''),
              (''index.md'',
               ''[Guide](guide-page) ![x](https://raw.githubusercontent.com/alice/docs/main/docs/assets/pic_1.png)''),
              (''guide-page.md'',
               ''See [home](index) and ![x](https://raw.githubusercontent.com/alice/docs/main/docs/assets/pic.png).''),
              (''_Sidebar.md'',
               sidebar_heading ''Documentation''
                 @ ''- [index](index)\<newline>- [guide-page](guide-page)\<newline>'')],
           printed = [mkdocs_yml_not_found]\<rparr>)"
  using main_example by (simp add: example_environment_def)

text \<open>
  Claim C4, amended.  When no \<open>mkdocs.yml\<close> exists and the run returns, the pages are those
  of the regular files that the scan of the documentation root yields, in the order of
  the scan, each recorded with its identifier as title as well; the sidebar written last
  is the heading followed by one line \<open>- [identifier](identifier)\<close> for each of them whose
  identifier is not empty.
\<close>

theorem fallback_pages_are_titled_by_identifier:
  assumes "mkdocs_yml env = None" and "main env = Inr (pages, w)"
  shows "pages = map (\<lambda>rel. (fallback_name rel, fallback_name rel)) (filter (is_file env) (rglob_md env))
    \<and> (\<exists>before. written w = before @
          [(''_Sidebar.md'',
            sidebar_heading ''Documentation'' @
            concat (map (\<lambda>name. ''- ['' @ name @ '']('' @ name @ '')'' @ [CHR 0x0A])
                      (filter (\<lambda>name. name \<noteq> [])
                         (map fallback_name (filter (is_file env) (rglob_md env))))))])"
proof -
  from assms obtain w0 w1 where f: "fallback_pages env (rglob_md env) w0 = Inr (pages, w1)"
    and w: "w = create_sidebar env pages w1"
    by (auto simp: main_def split: sum.splits prod.splits)
  from f have p: "pages = map (\<lambda>rel. (fallback_name rel, fallback_name rel)) (filter (is_file env) (rglob_md env))"
    by (rule fallback_pages_titled)
  have "concat (map (\<lambda>(title, wiki_name). ''- ['' @ title @ '']('' @ wiki_name @ '')'' @ [CHR 0x0A])
                   (filter (\<lambda>(title, wiki_name). title \<noteq> [] \<and> wiki_name \<noteq> []) pages))
      = concat (map (\<lambda>name. ''- ['' @ name @ '']('' @ name @ '')'' @ [CHR 0x0A])
                      (filter (\<lambda>name. name \<noteq> [])
                         (map fallback_name (filter (is_file env) (rglob_md env)))))"
    unfolding p by (induction "filter (is_file env) (rglob_md env)") (simp_all add: filter_map o_def)
  then have "written w = written w1 @
          [(''_Sidebar.md'',
            sidebar_heading ''Documentation'' @
            concat (map (\<lambda>name. ''- ['' @ name @ '']('' @ name @ '')'' @ [CHR 0x0A])
                      (filter (\<lambda>name. name \<noteq> [])
                         (map fallback_name (filter (is_file env) (rglob_md env))))))]"
    by (simp add: w create_sidebar_def sidebar_entries_append get_site_name_def assms(1))
  with p show ?thesis by blast
qed


theorem fallback_pages_are_titled_by_identifier_witness:
  "mkdocs_yml example_environment = None
   \<and> [(''index'', ''index''), (''guide-page'', ''guide-page'')]
       = map (\<lambda>rel. (fallback_name rel, fallback_name rel))
           (filter (is_file example_environment) (rglob_md example_environment))"
proof -
  have 1: "mkdocs_yml example_environment = None"
    by (simp add: example_environment_def)
  show ?thesis
    using fallback_pages_are_titled_by_identifier [OF 1 main_example] 1 by blast
qed

subsection \<open>Failures of the Image Path Resolver\<close>

lemma identity_unknown_github_repo:
  "identity_unknown env \<Longrightarrow> \<exists>w. github_repo env image_path = Unchanged w"
  by (auto simp: identity_unknown_def github_repo_def split: sum.splits option.splits list.splits)

lemma resolution_fails_caught:
  assumes "resolution_fails env p"
  shows "\<exists>e. (case resolve env p of Inl e \<Rightarrow> Inl e | Inr a \<Rightarrow> relative_to a (cwd env)) = Inl e
             \<and> (e = ValueError \<or> e = OSError)"
  using assms
  by (auto simp: resolution_fails_def outside_root_def relative_to_def split: sum.splits)

lemma only_caught_replace_image:
  assumes "only_caught_failures env"
  shows "\<exists>new ws. replace_image env source_file alt_text image_path = Inr (new, ws)"
proof -
  have g: "\<And>e. github_repo env image_path \<noteq> Raised e"
    using assms
    by (auto simp: only_caught_failures_def github_repo_def split: sum.splits option.splits list.splits)
  have r: "\<And>p e. resolve env p = Inl e \<Longrightarrow> e = ValueError \<or> e = OSError \<or> e = AttributeError"
  proof -
    fix p e
    assume "resolve env p = Inl e"
    moreover from assms have "case resolve env p of
                Inl e \<Rightarrow> e = ValueError \<or> e = OSError \<or> e = AttributeError
              | Inr a \<Rightarrow> True"
      unfolding only_caught_failures_def by blast
    ultimately show "e = ValueError \<or> e = OSError \<or> e = AttributeError"
      by simp
  qed
  show ?thesis
  proof (cases "github_repo env image_path")
    case (Repository repo)
    show ?thesis
    proof (cases "resolve env (truediv (parent source_file) image_path)")
      case (Inl e)
      with r [OF Inl] Repository show ?thesis
        by (auto simp: replace_image_def Let_def)
    next
      case (Inr a)
      with Repository show ?thesis
        by (auto simp: replace_image_def Let_def relative_to_def)
    qed
  next
    case (Unchanged w)
    then show ?thesis
      by (auto simp: replace_image_def Let_def)
  next
    case (Raised e)
    with g show ?thesis by blast
  qed
qed

lemma only_caught_convert_image_paths:
  "only_caught_failures env \<Longrightarrow> \<exists>out ws. convert_image_paths env source_file s = Inr (out, ws)"
proof (induction env source_file s rule: convert_image_paths.induct)
  case (1 env source_file)
  then show ?case by simp
next
  case (2 env source_file c cs)
  show ?case
  proof (cases "match_image (c # cs)")
    case None
    with 2 show ?thesis by auto
  next
    case (Some m)
    obtain alt_text image_path rest where M: "match_image (c # cs) = Some (alt_text, image_path, rest)"
      using Some by (cases m) auto
    obtain new ws1 where R: "replace_image env source_file alt_text image_path = Inr (new, ws1)"
      using only_caught_replace_image [OF "2.prems"] by blast
    obtain out ws2 where "convert_image_paths env source_file rest = Inr (out, ws2)"
      using "2.IH"(2) [OF M refl refl R refl "2.prems"] by blast
    with M R show ?thesis by simp
  qed
qed

text \<open>
  Claim C7, as the code has it.  A reference to a file that does not exist is not a
  failure: \<open>resolve()\<close> is not strict and nothing else looks for the file, so the reference
  is rewritten to a URL and no warning is printed.
\<close>

theorem image_of_missing_file_is_rewritten:
  "files example_environment (Path ''docs/assets/pic.png'') = None
   \<and> files example_environment (Path ''/repo/docs/assets/pic.png'') = None
   \<and> replace_image example_environment (Path ''docs/guide/page.md'') ''x'' ''../assets/pic.png''
       = Inr (''![x](https://raw.githubusercontent.com/alice/docs/main/docs/assets/pic.png)'', [])"
  by code_simp

text \<open>
  Claim C7, amended.  For every image reference that is not external: when the repository
  identity cannot be determined, and when it can but the resolution of the path fails
  (the resolved path lies outside the repository root, or an I/O error or a
  \<open>ValueError\<close> occurs), \<open>replace_image\<close> returns the reference as it stands together with one
  warning; and in an environment where these are the only failures,
  \<open>convert_image_paths\<close> returns for every document, so none of them aborts the
  processing.  A reference to a file that does not exist is not among the failures.
\<close>

theorem image_failures_keep_reference:
  assumes "\<not> startswith [''http://'', ''https://''] image_path"
  shows "(identity_unknown env \<longrightarrow>
            (\<exists>w. replace_image env source_file alt_text image_path
                    = Inr (''!['' @ alt_text @ '']('' @ image_path @ '')'', [w])))
    \<and> (github_repo env image_path = Repository repo
          \<and> resolution_fails env (truediv (parent source_file) image_path) \<longrightarrow>
            (\<exists>e. replace_image env source_file alt_text image_path
                    = Inr (''!['' @ alt_text @ '']('' @ image_path @ '')'',
                           [Could_not_convert_image_path image_path source_file e])))
    \<and> (only_caught_failures env \<longrightarrow>
            (\<exists>out ws. convert_image_paths env source_file document = Inr (out, ws)))"
proof (intro conjI impI)
  assume "identity_unknown env"
  then obtain w where "github_repo env image_path = Unchanged w"
    using identity_unknown_github_repo by blast
  with assms show "\<exists>w. replace_image env source_file alt_text image_path
                    = Inr (''!['' @ alt_text @ '']('' @ image_path @ '')'', [w])"
    by (simp add: replace_image_def)
next
  assume a: "github_repo env image_path = Repository repo
          \<and> resolution_fails env (truediv (parent source_file) image_path)"
  then obtain e where "(case resolve env (truediv (parent source_file) image_path) of
        Inl e \<Rightarrow> Inl e | Inr a \<Rightarrow> relative_to a (cwd env)) = Inl e" and "e = ValueError \<or> e = OSError"
    using resolution_fails_caught by blast
  with assms a show "\<exists>e. replace_image env source_file alt_text image_path
                    = Inr (''!['' @ alt_text @ '']('' @ image_path @ '')'',
                           [Could_not_convert_image_path image_path source_file e])"
    by (auto simp: replace_image_def)
next
  assume "only_caught_failures env"
  then show "\<exists>out ws. convert_image_paths env source_file document = Inr (out, ws)"
    by (rule only_caught_convert_image_paths)
qed


theorem image_failures_keep_reference_witness:
  "\<not> startswith [''http://'', ''https://''] ''../../../logo.png''
   \<and> identity_unknown (example_environment\<lparr>GITHUB_REPOSITORY := None\<rparr>)
   \<and> (\<exists>w. replace_image (example_environment\<lparr>GITHUB_REPOSITORY := None\<rparr>)
              (Path ''docs/guide/page.md'') ''x'' ''../../../logo.png''
            = Inr (''![x](../../../logo.png)'', [w]))
   \<and> github_repo example_environment ''../../../logo.png'' = Repository ''alice/docs''
   \<and> resolution_fails example_environment
        (truediv (parent (Path ''docs/guide/page.md'')) ''../../../logo.png'')
   \<and> (\<exists>e. replace_image example_environment (Path ''docs/guide/page.md'') ''x'' ''../../../logo.png''
            = Inr (''![x](../../../logo.png)'',
                   [Could_not_convert_image_path ''../../../logo.png'' (Path ''docs/guide/page.md'') e]))
   \<and> only_caught_failures example_environment
   \<and> (\<exists>out ws. convert_image_paths example_environment (Path ''docs/guide/page.md'')
                   ''![x](../../../logo.png) ![y](../assets/pic.png)'' = Inr (out, ws))"
proof -
  have 0: "\<not> startswith [''http://'', ''https://''] ''../../../logo.png''"
    by (simp add: startswith_def)
  have 1: "identity_unknown (example_environment\<lparr>GITHUB_REPOSITORY := None\<rparr>)"
    by (simp add: identity_unknown_def example_environment_def)
  have 2: "github_repo example_environment ''../../../logo.png'' = Repository ''alice/docs''"
    by (simp add: github_repo_def example_environment_def)
  have 3: "resolution_fails example_environment
        (truediv (parent (Path ''docs/guide/page.md'')) ''../../../logo.png'')"
    by code_simp
  have 4: "only_caught_failures example_environment"
    by (simp add: only_caught_failures_def example_environment_def lexical_resolve_def)
  show ?thesis
    using
      image_failures_keep_reference [OF 0,
        where env = "example_environment\<lparr>GITHUB_REPOSITORY := None\<rparr>"
          and source_file = "Path ''docs/guide/page.md''" and alt_text = "''x''"]
      image_failures_keep_reference [OF 0,
        where env = example_environment
          and source_file = "Path ''docs/guide/page.md''" and alt_text = "''x''"
          and repo = "''alice/docs''"
          and document = "''![x](../../../logo.png) ![y](../assets/pic.png)''"]
      0 1 2 3 4
    by simp
qed

end
